theory Spec2Isabelle
  imports Main "HOL-Library.Word" "HOL-Library.Multiset"
begin

section \<open>Go values\<close>

text \<open>
  The bundle package of dtn7 (\<^verbatim>\<open>bundle/endpoint.go\<close>, \<^verbatim>\<open>bundle/bundle.go\<close>) is embedded
  function by function. Go's \<^verbatim>\<open>uint\<close> is taken at its 64-bit width (amd64, arm64), so that
  the conversion \<^verbatim>\<open>uint(x)\<close> of a \<^verbatim>\<open>uint64\<close> keeps the value. Go strings are byte
  sequences: a \<^typ>\<open>string\<close> here is the list of the bytes.
\<close>

type_synonym uint = "64 word"
type_synonym uint64 = "64 word"
type_synonym int64 = "64 word"
type_synonym byte = "8 word"

text \<open>
  The scheme-specific part of an endpoint ID has the Go type \<^verbatim>\<open>interface{}\<close>. The datatype
  lists the dynamic types the package stores there itself (\<^verbatim>\<open>uint\<close>, \<^verbatim>\<open>string\<close>,
  \<^verbatim>\<open>[2]uint64\<close>) and those the generic CBOR decoding hands over (nil, \<^verbatim>\<open>bool\<close>,
  \<^verbatim>\<open>uint64\<close>, \<^verbatim>\<open>int64\<close>, \<^verbatim>\<open>string\<close>, \<^verbatim>\<open>[]byte\<close>, \<^verbatim>\<open>[]interface{}\<close>). Floats, maps and
  tags are left out: the code treats them as it treats \<^verbatim>\<open>bool\<close>.
\<close>

datatype iface =
    INil
  | IBool bool
  | IUint uint
  | IUint64 uint64
  | IInt64 int64
  | IString string
  | IBytes "byte list"
  | ISlice "iface list"
  | IArray2 uint64 uint64

text \<open>A run-time panic, by its cause.\<close>

datatype panic =
    TypeAssertionFailed
  | IndexOutOfRange
  | NilDereference
  | DecodeFailed

text \<open>
  Modelled from the spec: the type \<^verbatim>\<open>CanonicalBlockType\<close> and its constants are declared
  outside the files embedded here. The named block types are distinct constants (they are the
  cases of one \<^verbatim>\<open>switch\<close>); \<open>OtherBlockType n\<close> is any other code.
\<close>

datatype CanonicalBlockType =
    PayloadBlock
  | PreviousNodeBlock
  | BundleAgeBlock
  | HopCountBlock
  | OtherBlockType nat

text \<open>
  An error value: \<^verbatim>\<open>newBundleError(msg)\<close> with its message, and the two errors of
  \<^verbatim>\<open>strconv.ParseUint\<close>. The numeric code of a block type is not in the files embedded here,
  so a message that prints one with \<^verbatim>\<open>%d\<close> keeps the format and the block type; a
  message that prints a recovered panic with \<^verbatim>\<open>%v\<close> keeps the format and the panic.
\<close>

datatype error =
    BundleError string
  | BundleErrorf string CanonicalBlockType
  | BundleErrorRecovered string panic
  | ErrSyntax
  | ErrRange

section \<open>Text helpers: character classes, decimal numerals\<close>

definition isDigit :: "char \<Rightarrow> bool" where
  "isDigit c = (48 \<le> (of_char c :: nat) \<and> (of_char c :: nat) \<le> 57)"

definition isAlnum :: "char \<Rightarrow> bool" where
  "isAlnum c =
     (isDigit c
      \<or> (65 \<le> (of_char c :: nat) \<and> (of_char c :: nat) \<le> 90)
      \<or> (97 \<le> (of_char c :: nat) \<and> (of_char c :: nat) \<le> 122))"

definition digitChar :: "nat \<Rightarrow> char" where
  "digitChar d = char_of (48 + d)"

definition digitValue :: "char \<Rightarrow> nat" where
  "digitValue c = of_char c - 48"

text \<open>The verb \<^verbatim>\<open>%d\<close> of \<^verbatim>\<open>fmt\<close> on an unsigned number: decimal, no leading zero.\<close>

fun FormatUint :: "nat \<Rightarrow> string" where
  "FormatUint n =
     (if n < 10 then [digitChar n] else FormatUint (n div 10) @ [digitChar (n mod 10)])"

declare FormatUint.simps [simp del]

text \<open>The value of a string of decimal digits, most significant digit first.\<close>

definition digitsValue :: "string \<Rightarrow> nat" where
  "digitsValue s = foldl (\<lambda>acc c. 10 * acc + digitValue c) 0 s"

text \<open>
  \<^verbatim>\<open>strconv.ParseUint(s, 10, 64)\<close>: a syntax error on the empty string and on any
  character that is not a decimal digit, a range error above \<open>2^64 - 1\<close>.
\<close>

definition ParseUint :: "string \<Rightarrow> error + uint64" where
  "ParseUint s =
     (if s = [] \<or> \<not> list_all isDigit s then Inl ErrSyntax
      else if digitsValue s < 2 ^ 64 then Inr (word_of_nat (digitsValue s))
      else Inl ErrRange)"

section \<open>Endpoint IDs (bundle/endpoint.go)\<close>

definition endpointURISchemeDTN :: uint where
  "endpointURISchemeDTN = 1"

definition endpointURISchemeIPN :: uint where
  "endpointURISchemeIPN = 2"

record EndpointID =
  SchemeName :: uint
  SchemeSpecificPart :: iface

definition newEndpointIDDTN :: "string \<Rightarrow> error + EndpointID" where
  "newEndpointIDDTN ssp =
     Inr \<lparr>SchemeName = endpointURISchemeDTN,
          SchemeSpecificPart = (if ssp = ''none'' then IUint 0 else IString ssp)\<rparr>"

text \<open>
  The regular expression \<^verbatim>\<open>^(\d+)\.(\d+)$\<close> of \<^verbatim>\<open>newEndpointIDIPN\<close>: the two groups
  of a match, or \<open>None\<close> (\<^verbatim>\<open>FindStringSubmatch\<close> then returns nil, of length 0). The
  first group is the longest prefix of digits, since the next character must be the dot.
\<close>

definition matchIPN :: "string \<Rightarrow> (string \<times> string) option" where
  "matchIPN ssp =
     (let node = takeWhile isDigit ssp in
      case dropWhile isDigit ssp of
        [] \<Rightarrow> None
      | c # service \<Rightarrow>
          if node \<noteq> [] \<and> c = CHR ''.'' \<and> service \<noteq> [] \<and> list_all isDigit service
          then Some (node, service) else None)"

definition newEndpointIDIPN :: "string \<Rightarrow> error + EndpointID" where
  "newEndpointIDIPN ssp =
     (case matchIPN ssp of
        None \<Rightarrow> Inl (BundleError ''IPN does not satisfy given regex'')
      | Some (m1, m2) \<Rightarrow>
          (case ParseUint m1 of
             Inl err \<Rightarrow> Inl err
           | Inr nodeNo \<Rightarrow>
               (case ParseUint m2 of
                  Inl err \<Rightarrow> Inl err
                | Inr serviceNo \<Rightarrow>
                    if nodeNo < 1 \<or> serviceNo < 1
                    then Inl (BundleError ''IPN's node and service number must be >= 1'')
                    else Inr \<lparr>SchemeName = endpointURISchemeIPN,
                              SchemeSpecificPart = IArray2 nodeNo serviceNo\<rparr>)))"

text \<open>
  The regular expression \<^verbatim>\<open>^([[:alnum:]]+):(.+)$\<close> of \<^verbatim>\<open>NewEndpointID\<close>. The class
  \<^verbatim>\<open>[[:alnum:]]\<close> is ASCII and excludes the colon, so the first group is the longest
  alphanumeric prefix; in Go's syntax \<^verbatim>\<open>.\<close> matches every character but the line feed
  and \<^verbatim>\<open>$\<close> only the end of the text.
\<close>

definition matchEID :: "string \<Rightarrow> (string \<times> string) option" where
  "matchEID eid =
     (let name = takeWhile isAlnum eid in
      case dropWhile isAlnum eid of
        [] \<Rightarrow> None
      | c # ssp \<Rightarrow>
          if name \<noteq> [] \<and> c = CHR '':'' \<and> ssp \<noteq> [] \<and> CHR 0x0A \<notin> set ssp
          then Some (name, ssp) else None)"

definition NewEndpointID :: "string \<Rightarrow> error + EndpointID" where
  "NewEndpointID eid =
     (case matchEID eid of
        None \<Rightarrow> Inl (BundleError ''eid does not satisfy regex'')
      | Some (name, ssp) \<Rightarrow>
          if name = ''dtn'' then newEndpointIDDTN ssp
          else if name = ''ipn'' then newEndpointIDIPN ssp
          else Inl (BundleError ''Unknown scheme type''))"

text \<open>
  \<^verbatim>\<open>setEndpointIDFromCborArray\<close>: the array is what the generic decoding produced. Each
  index expression and each type assertion panics where Go's does; \<^verbatim>\<open>reflect.TypeOf\<close> of
  a nil interface is nil, so that \<^verbatim>\<open>ty.Kind()\<close> panics; a \<^verbatim>\<open>[]byte\<close> has kind Slice and
  fails the assertion to \<^verbatim>\<open>[]interface{}\<close>. The scheme name plays no part in the switch.
\<close>

definition setEndpointIDFromCborArray :: "iface list \<Rightarrow> panic + EndpointID" where
  "setEndpointIDFromCborArray arr =
     (case arr of
        [] \<Rightarrow> Inl IndexOutOfRange
      | IUint64 name # rest \<Rightarrow>
          (case rest of
             [] \<Rightarrow> Inl IndexOutOfRange
           | INil # _ \<Rightarrow> Inl NilDereference
           | IUint64 v # _ \<Rightarrow> Inr \<lparr>SchemeName = name, SchemeSpecificPart = IUint v\<rparr>
           | IBytes _ # _ \<Rightarrow> Inl TypeAssertionFailed
           | ISlice xs # _ \<Rightarrow>
               (case xs of
                  [] \<Rightarrow> Inl IndexOutOfRange
                | IUint64 a # ys \<Rightarrow>
                    (case ys of
                       [] \<Rightarrow> Inl IndexOutOfRange
                     | IUint64 b # _ \<Rightarrow>
                         Inr \<lparr>SchemeName = name, SchemeSpecificPart = IArray2 a b\<rparr>
                     | _ # _ \<Rightarrow> Inl TypeAssertionFailed)
                | _ # _ \<Rightarrow> Inl TypeAssertionFailed)
           | ssp # _ \<Rightarrow> Inr \<lparr>SchemeName = name, SchemeSpecificPart = ssp\<rparr>)
      | _ # _ \<Rightarrow> Inl TypeAssertionFailed)"

text \<open>
  \<^verbatim>\<open>CodecEncodeSelf\<close> hands the two-element array to the encoder;
  \<^verbatim>\<open>CodecDecodeSelf\<close> receives what \<^verbatim>\<open>MustDecode\<close> made of the input, a panic of the
  library or an array, and passes the array on.
\<close>

definition EndpointID_CodecEncodeSelf :: "EndpointID \<Rightarrow> iface list" where
  "EndpointID_CodecEncodeSelf eid = [IUint (SchemeName eid), SchemeSpecificPart eid]"

definition EndpointID_CodecDecodeSelf :: "panic + iface list \<Rightarrow> panic + EndpointID" where
  "EndpointID_CodecDecodeSelf decoded =
     (case decoded of
        Inl p \<Rightarrow> Inl p
      | Inr blockArr \<Rightarrow> setEndpointIDFromCborArray blockArr)"

definition checkValidDtn :: "EndpointID \<Rightarrow> error option" where
  "checkValidDtn eid =
     (case SchemeSpecificPart eid of
        IString s \<Rightarrow>
          if s = ''none''
          then Some (BundleError ''EndpointID: equals dtn:none, with none as a string'')
          else None
      | _ \<Rightarrow> None)"

definition checkValidIpn :: "EndpointID \<Rightarrow> panic + error option" where
  "checkValidIpn eid =
     (case SchemeSpecificPart eid of
        IArray2 node service \<Rightarrow>
          if node < 1 \<or> service < 1
          then Inr (Some (BundleError
                 ''EndpointID: IPN's node and service number must be >= 1''))
          else Inr None
      | _ \<Rightarrow> Inl TypeAssertionFailed)"

definition EndpointID_checkValid :: "EndpointID \<Rightarrow> panic + error option" where
  "EndpointID_checkValid eid =
     (if SchemeName eid = endpointURISchemeDTN then Inr (checkValidDtn eid)
      else if SchemeName eid = endpointURISchemeIPN then checkValidIpn eid
      else Inr (Some (BundleError ''EndpointID: unknown scheme name'')))"

text \<open>The verbs \<^verbatim>\<open>%T\<close> and \<^verbatim>\<open>%v\<close> of \<^verbatim>\<open>fmt\<close>, for the default case of \<^verbatim>\<open>String\<close>.\<close>

definition FormatInt :: "int \<Rightarrow> string" where
  "FormatInt i = (if i < 0 then CHR ''-'' # FormatUint (nat (- i)) else FormatUint (nat i))"

fun joinSpace :: "string list \<Rightarrow> string" where
  "joinSpace [] = []"
| "joinSpace [s] = s"
| "joinSpace (s # t # ss) = s @ '' '' @ joinSpace (t # ss)"

fun fmtT :: "iface \<Rightarrow> string" where
  "fmtT INil = ''<nil>''"
| "fmtT (IBool _) = ''bool''"
| "fmtT (IUint _) = ''uint''"
| "fmtT (IUint64 _) = ''uint64''"
| "fmtT (IInt64 _) = ''int64''"
| "fmtT (IString _) = ''string''"
| "fmtT (IBytes _) = ''[]uint8''"
| "fmtT (ISlice _) = ''[]interface {}''"
| "fmtT (IArray2 _ _) = ''[2]uint64''"

fun fmtV :: "iface \<Rightarrow> string" where
  "fmtV INil = ''<nil>''"
| "fmtV (IBool b) = (if b then ''true'' else ''false'')"
| "fmtV (IUint n) = FormatUint (unat n)"
| "fmtV (IUint64 n) = FormatUint (unat n)"
| "fmtV (IInt64 i) = FormatInt (sint i)"
| "fmtV (IString s) = s"
| "fmtV (IBytes bs) = ''['' @ joinSpace (map (\<lambda>b. FormatUint (unat b)) bs) @ '']''"
| "fmtV (ISlice xs) = ''['' @ joinSpace (map fmtV xs) @ '']''"
| "fmtV (IArray2 a b) = ''['' @ FormatUint (unat a) @ '' '' @ FormatUint (unat b) @ '']''"

definition EndpointID_String :: "EndpointID \<Rightarrow> string" where
  "EndpointID_String eid =
     (if SchemeName eid = endpointURISchemeDTN then ''dtn''
      else if SchemeName eid = endpointURISchemeIPN then ''ipn''
      else ''unknown_'' @ FormatUint (unat (SchemeName eid)))
     @ '':''
     @ (case SchemeSpecificPart eid of
          IUint n \<Rightarrow>
            if SchemeName eid = endpointURISchemeDTN \<and> n = 0 then ''none''
            else FormatUint (unat n)
        | IString s \<Rightarrow> s
        | IArray2 node service \<Rightarrow>
            if SchemeName eid = endpointURISchemeIPN
            then FormatUint (unat node) @ ''.'' @ FormatUint (unat service)
            else fmtV (IArray2 node service)
        | t \<Rightarrow> ''unknown '' @ fmtT t @ '': '' @ fmtV t)"

definition DtnNone :: EndpointID where
  "DtnNone = \<lparr>SchemeName = endpointURISchemeDTN, SchemeSpecificPart = IUint 0\<rparr>"


section \<open>Bundles (bundle/bundle.go)\<close>

text \<open>
  Modelled from the spec: the structs \<^verbatim>\<open>PrimaryBlock\<close> and \<^verbatim>\<open>CanonicalBlock\<close>, the flag
  types with their method \<^verbatim>\<open>Has\<close>, the block type codes and the CRC types are declared
  outside the files embedded here. The records carry the fields the spec lists for a block
  (section 3, section 6), under the names \<^verbatim>\<open>bundle.go\<close> uses for those it reads. A
  control-flags bitset is the set of the flags that are set, so that \<^verbatim>\<open>Has\<close> is
  membership.
\<close>

datatype BundleControlFlag =
    IsFragment
  | AdministrativeRecordPayload
  | OtherBundleFlag nat

datatype BlockControlFlag =
    StatusReportBlock
  | OtherBlockFlag nat

definition Has :: "'f set \<Rightarrow> 'f \<Rightarrow> bool" where
  "Has flags flag = (flag \<in> flags)"

datatype CRCType = CRCNo | CRC16 | CRC32

record PrimaryBlock =
  Version :: uint
  BundleControlFlags :: "BundleControlFlag set"
  PrimaryCRCType :: CRCType
  Destination :: EndpointID
  SourceNode :: EndpointID
  ReportTo :: EndpointID
  CreationTimestamp :: "uint \<times> uint"
  Lifetime :: uint
  FragmentOffset :: uint
  TotalDataLength :: uint
  PrimaryCRC :: "byte list"

record CanonicalBlock =
  BlockType :: CanonicalBlockType
  BlockNumber :: uint
  BlockControlFlags :: "BlockControlFlag set"
  CRCType :: CRCType
  Data :: iface
  CRC :: "byte list"

record Bundle =
  PrimaryBlock :: PrimaryBlock
  CanonicalBlocks :: "CanonicalBlock list"

text \<open>
  \<^verbatim>\<open>forEachBlock\<close> calls \<open>f\<close> on a pointer to the primary block, then on a pointer to
  each canonical block in order. The callback is given once per implementation of the
  interface \<^verbatim>\<open>block\<close>; it returns the block as it leaves it and the new value of the
  variables it captures.
\<close>

definition forEachBlock ::
  "(PrimaryBlock \<Rightarrow> 's \<Rightarrow> PrimaryBlock \<times> 's) \<Rightarrow> (CanonicalBlock \<Rightarrow> 's \<Rightarrow> CanonicalBlock \<times> 's)
   \<Rightarrow> Bundle \<Rightarrow> 's \<Rightarrow> Bundle \<times> 's" where
  "forEachBlock fp fc b s =
     (let (pb, s1) = fp (PrimaryBlock b) s;
          (cbs, s2) =
            foldl (\<lambda>(done, st) cb. let (cb', st') = fc cb st in (done @ [cb'], st'))
              ([], s1) (CanonicalBlocks b)
      in (\<lparr>PrimaryBlock = pb, CanonicalBlocks = cbs\<rparr>, s2))"

text \<open>
  The aggregate of \<^verbatim>\<open>multierror.Append\<close> is the list of the errors appended, nil when
  empty; appending an aggregate appends its members. An entry is either an error a block's
  own \<^verbatim>\<open>checkValid\<close> returned (those methods are outside the files embedded here: they are the
  parameters \<open>pbValid\<close> and \<open>cbValid\<close>) or an error \<^verbatim>\<open>Bundle.checkValid\<close> creates.
\<close>

datatype 'e violation =
    BlockViolation 'e
  | BundleViolation error

definition statusReportError :: error where
  "statusReportError = BundleError
     (''Bundle: Bundle Processing Control Flags indicate that ''
      @ ''this bundle's payload is an administrative record or the source ''
      @ ''node is omitted, but the '' @ [CHR 0x22]
      @ ''Transmit status report if block canot ''
      @ ''be processed'' @ [CHR 0x22] @ '' Block Processing Control Flag was set in a ''
      @ ''Canonical Block'')"

text \<open>The two \<^verbatim>\<open>Sprintf\<close> messages; the block number is printed in decimal.\<close>

definition blockNumberError :: "uint \<Rightarrow> error" where
  "blockNumberError n = BundleError
     (''Bundle: Block number '' @ FormatUint (unat n) @ '' occurred multiple times'')"

definition blockTypeError :: "CanonicalBlockType \<Rightarrow> error" where
  "blockTypeError t = BundleErrorf ''Bundle: Block type %d occurred multiple times'' t"

definition bundleAgeError :: error where
  "bundleAgeError = BundleError
     ''Bundle: Creation Timestamp is zero, but no Bundle Age block is present''"

text \<open>The body of the first loop over the canonical blocks.\<close>

definition statusReportStep :: "'e violation list \<Rightarrow> CanonicalBlock \<Rightarrow> 'e violation list" where
  "statusReportStep errs cb =
     (if Has (BlockControlFlags cb) StatusReportBlock
      then errs @ [BundleViolation statusReportError] else errs)"

text \<open>
  The body of the second loop: the two maps \<^verbatim>\<open>cbBlockNumbers\<close> and \<^verbatim>\<open>cbBlockTypes\<close> and
  the aggregate.
\<close>

definition uniqueStep ::
  "(uint \<rightharpoonup> bool) \<times> (CanonicalBlockType \<rightharpoonup> bool) \<times> 'e violation list \<Rightarrow> CanonicalBlock
   \<Rightarrow> (uint \<rightharpoonup> bool) \<times> (CanonicalBlockType \<rightharpoonup> bool) \<times> 'e violation list" where
  "uniqueStep st cb =
     (let (cbBlockNumbers, cbBlockTypes, errs) = st;
          errs1 =
            (if cbBlockNumbers (BlockNumber cb) \<noteq> None
             then errs @ [BundleViolation (blockNumberError (BlockNumber cb))] else errs);
          cbBlockNumbers1 = cbBlockNumbers(BlockNumber cb \<mapsto> True)
      in if BlockType cb = PreviousNodeBlock \<or> BlockType cb = BundleAgeBlock
            \<or> BlockType cb = HopCountBlock
         then
           (cbBlockNumbers1, cbBlockTypes(BlockType cb \<mapsto> True),
            if cbBlockTypes (BlockType cb) \<noteq> None
            then errs1 @ [BundleViolation (blockTypeError (BlockType cb))] else errs1)
         else (cbBlockNumbers1, cbBlockTypes, errs1))"

definition Bundle_checkValid ::
  "(PrimaryBlock \<Rightarrow> 'e list) \<Rightarrow> (CanonicalBlock \<Rightarrow> 'e list) \<Rightarrow> Bundle \<Rightarrow> 'e violation list" where
  "Bundle_checkValid pbValid cbValid b =
     (let errs0 =
            snd (forEachBlock
              (\<lambda>blck errs. (blck, errs @ map BlockViolation (pbValid blck)))
              (\<lambda>blck errs. (blck, errs @ map BlockViolation (cbValid blck)))
              b []);
          errs1 =
            (if Has (BundleControlFlags (PrimaryBlock b)) AdministrativeRecordPayload
                \<or> SourceNode (PrimaryBlock b) = DtnNone
             then foldl statusReportStep errs0 (CanonicalBlocks b) else errs0);
          (cbBlockNumbers, cbBlockTypes, errs2) =
            foldl uniqueStep (Map.empty, Map.empty, errs1) (CanonicalBlocks b)
      in if fst (CreationTimestamp (PrimaryBlock b)) = 0
         then (if cbBlockTypes BundleAgeBlock = None
               then errs2 @ [BundleViolation bundleAgeError] else errs2)
         else errs2)"

definition NewBundle ::
  "(PrimaryBlock \<Rightarrow> 'e list) \<Rightarrow> (CanonicalBlock \<Rightarrow> 'e list)
   \<Rightarrow> PrimaryBlock \<Rightarrow> CanonicalBlock list \<Rightarrow> Bundle \<times> 'e violation list" where
  "NewBundle pbValid cbValid primary canonicals =
     (let b = \<lparr>PrimaryBlock = primary, CanonicalBlocks = canonicals\<rparr>
      in (b, Bundle_checkValid pbValid cbValid b))"

text \<open>
  \<^verbatim>\<open>Bundle.CheckCRC\<close> hands a pointer to each block to the block's own \<^verbatim>\<open>CheckCRC\<close>
  (a method outside the files embedded here, here a parameter per kind of block: its result, and
  the block as the call leaves it) and clears the flag on a failure. No block is skipped.
\<close>

definition Bundle_CheckCRC ::
  "(PrimaryBlock \<Rightarrow> bool \<times> PrimaryBlock) \<Rightarrow> (CanonicalBlock \<Rightarrow> bool \<times> CanonicalBlock)
   \<Rightarrow> Bundle \<Rightarrow> bool \<times> Bundle" where
  "Bundle_CheckCRC pbCheckCRC cbCheckCRC b =
     (let (b', flag) =
            forEachBlock
              (\<lambda>blck flag. let (ok, blck') = pbCheckCRC blck
                           in (blck', if \<not> ok then False else flag))
              (\<lambda>blck flag. let (ok, blck') = cbCheckCRC blck
                           in (blck', if \<not> ok then False else flag))
              b True
      in (flag, b'))"

subsection \<open>Decoding a bundle\<close>

text \<open>
  What \<^verbatim>\<open>NewBundleFromCbor\<close> calls outside the files embedded here: the generic decoding of the
  codec library (a panic, or the array \<^verbatim>\<open>dataArr\<close>), the decoding of a generic value into a
  primary or a canonical block (\<^verbatim>\<open>decodeBundleBlock\<close> encodes the value again and lets the
  block's \<^verbatim>\<open>CodecDecodeSelf\<close> decode it; a panic, or the block), and the blocks' own
  \<^verbatim>\<open>checkValid\<close> and \<^verbatim>\<open>CheckCRC\<close>, taken as methods that return.
\<close>

record 'e blockMethods =
  decodeGeneric :: "byte list \<Rightarrow> panic + iface list"
  decodePrimary :: "iface \<Rightarrow> panic + PrimaryBlock"
  decodeCanonical :: "iface \<Rightarrow> panic + CanonicalBlock"
  pbCheckValid :: "PrimaryBlock \<Rightarrow> 'e list"
  cbCheckValid :: "CanonicalBlock \<Rightarrow> 'e list"
  pbCheckCRC :: "PrimaryBlock \<Rightarrow> bool \<times> PrimaryBlock"
  cbCheckCRC :: "CanonicalBlock \<Rightarrow> bool \<times> CanonicalBlock"

definition decodeBundleBlock :: "(iface \<Rightarrow> panic + 'blk) \<Rightarrow> iface \<Rightarrow> panic + 'blk" where
  "decodeBundleBlock decodeSelf data = decodeSelf data"

text \<open>The loop over \<^verbatim>\<open>dataArr[1:]\<close>: it ends at the first panic.\<close>

fun decodeCanonicals ::
  "(iface \<Rightarrow> panic + CanonicalBlock) \<Rightarrow> iface list \<Rightarrow> panic + CanonicalBlock list" where
  "decodeCanonicals decodeSelf [] = Inr []"
| "decodeCanonicals decodeSelf (d # ds) =
     (case decodeBundleBlock decodeSelf d of
        Inl r \<Rightarrow> Inl r
      | Inr cb \<Rightarrow>
          (case decodeCanonicals decodeSelf ds of
             Inl r \<Rightarrow> Inl r
           | Inr cbs \<Rightarrow> Inr (cb # cbs)))"

text \<open>The zero value of a \<^verbatim>\<open>Bundle\<close>: the named result \<^verbatim>\<open>b\<close> before it is assigned.\<close>

definition zeroEndpointID :: EndpointID where
  "zeroEndpointID = \<lparr>SchemeName = 0, SchemeSpecificPart = INil\<rparr>"

definition zeroBundle :: Bundle where
  "zeroBundle =
     \<lparr>PrimaryBlock =
        \<lparr>Version = 0, BundleControlFlags = {}, PrimaryCRCType = CRCNo,
         Destination = zeroEndpointID, SourceNode = zeroEndpointID, ReportTo = zeroEndpointID,
         CreationTimestamp = (0, 0), Lifetime = 0, FragmentOffset = 0, TotalDataLength = 0,
         PrimaryCRC = []\<rparr>,
      CanonicalBlocks = []\<rparr>"

text \<open>
  The body of \<^verbatim>\<open>NewBundleFromCbor\<close>, without the deferred function: a panic (of the
  library, of the index expression \<^verbatim>\<open>dataArr[0]\<close>, of a block's decoding), or the results
  \<^verbatim>\<open>b\<close> and \<^verbatim>\<open>err\<close>.
\<close>

definition NewBundleFromCbor_body ::
  "'e blockMethods \<Rightarrow> byte list \<Rightarrow> panic + Bundle \<times> 'e violation list" where
  "NewBundleFromCbor_body m data =
     (case decodeGeneric m data of
        Inl r \<Rightarrow> Inl r
      | Inr dataArr \<Rightarrow>
          (case dataArr of
             [] \<Rightarrow> Inl IndexOutOfRange
           | d0 # ds \<Rightarrow>
               (case decodeBundleBlock (decodePrimary m) d0 of
                  Inl r \<Rightarrow> Inl r
                | Inr pb \<Rightarrow>
                    (case decodeCanonicals (decodeCanonical m) ds of
                       Inl r \<Rightarrow> Inl r
                     | Inr cb \<Rightarrow>
                         (let b = \<lparr>PrimaryBlock = pb, CanonicalBlocks = cb\<rparr>;
                              err = Bundle_checkValid (pbCheckValid m) (cbCheckValid m) b;
                              (ok, b') = Bundle_CheckCRC (pbCheckCRC m) (cbCheckCRC m) b
                          in Inr (b',
                               if \<not> ok then err @ [BundleViolation (BundleError ''CRC failed'')]
                               else err))))))"

text \<open>
  \<^verbatim>\<open>NewBundleFromCbor\<close>: the deferred function recovers a panic of the body and sets
  \<^verbatim>\<open>err\<close>; the function then returns its named results.
\<close>

definition NewBundleFromCbor :: "'e blockMethods \<Rightarrow> byte list \<Rightarrow> Bundle \<times> 'e violation list" where
  "NewBundleFromCbor m data =
     (case NewBundleFromCbor_body m data of
        Inl r \<Rightarrow>
          (zeroBundle,
           [BundleViolation (BundleErrorRecovered ''Bundle: Decoding CBOR failed, %v'' r)])
      | Inr (b, err) \<Rightarrow> (b, err))"

subsection \<open>The CRC check of a block\<close>

text \<open>
  Modelled from the spec: the method \<^verbatim>\<open>CheckCRC\<close> of a block is outside the files embedded here.
  Section 4.2 of the spec gives its steps (set the integrity value to its zero value,
  serialize the block, compute the checksum over those bytes, compare with the stored
  value); section 9 records that the source does this on the block in place, and the
  comment of \<^verbatim>\<open>Bundle.CheckCRC\<close> that the change of the CRC value is temporary. So the
  stored value is written back. The serialization and the checksum are parameters. A block
  with no CRC passes unchanged.
\<close>

definition emptyCRC :: "CRCType \<Rightarrow> byte list" where
  "emptyCRC t = (case t of CRCNo \<Rightarrow> [] | CRC16 \<Rightarrow> [0, 0] | CRC32 \<Rightarrow> [0, 0, 0, 0])"

definition PrimaryBlock_CheckCRC ::
  "(PrimaryBlock \<Rightarrow> byte list) \<Rightarrow> (CRCType \<Rightarrow> byte list \<Rightarrow> byte list)
   \<Rightarrow> PrimaryBlock \<Rightarrow> bool \<times> PrimaryBlock" where
  "PrimaryBlock_CheckCRC serialize checksum pb =
     (if PrimaryCRCType pb = CRCNo then (True, pb)
      else
        (let stored = PrimaryCRC pb;
             pb1 = pb\<lparr>PrimaryCRC := emptyCRC (PrimaryCRCType pb)\<rparr>;
             computed = checksum (PrimaryCRCType pb) (serialize pb1);
             pb2 = pb1\<lparr>PrimaryCRC := stored\<rparr>
         in (computed = stored, pb2)))"

definition CanonicalBlock_CheckCRC ::
  "(CanonicalBlock \<Rightarrow> byte list) \<Rightarrow> (CRCType \<Rightarrow> byte list \<Rightarrow> byte list)
   \<Rightarrow> CanonicalBlock \<Rightarrow> bool \<times> CanonicalBlock" where
  "CanonicalBlock_CheckCRC serialize checksum cb =
     (if CRCType cb = CRCNo then (True, cb)
      else
        (let stored = CRC cb;
             cb1 = cb\<lparr>CRC := emptyCRC (CRCType cb)\<rparr>;
             computed = checksum (CRCType cb) (serialize cb1);
             cb2 = cb1\<lparr>CRC := stored\<rparr>
         in (computed = stored, cb2)))"


text \<open>
  Modelled from the spec: the values a block takes, one per write of its \<^verbatim>\<open>CheckCRC\<close> as
  above (the CRC value set to zero, the stored value written back), and the values the
  shared bundle takes while \<^verbatim>\<open>Bundle.CheckCRC\<close> goes through its blocks in the order of
  \<^verbatim>\<open>forEachBlock\<close>.
\<close>

definition PrimaryBlock_CheckCRC_states :: "PrimaryBlock \<Rightarrow> PrimaryBlock list" where
  "PrimaryBlock_CheckCRC_states pb =
     (if PrimaryCRCType pb = CRCNo then []
      else
        (let stored = PrimaryCRC pb;
             pb1 = pb\<lparr>PrimaryCRC := emptyCRC (PrimaryCRCType pb)\<rparr>;
             pb2 = pb1\<lparr>PrimaryCRC := stored\<rparr>
         in [pb1, pb2]))"

definition CanonicalBlock_CheckCRC_states :: "CanonicalBlock \<Rightarrow> CanonicalBlock list" where
  "CanonicalBlock_CheckCRC_states cb =
     (if CRCType cb = CRCNo then []
      else
        (let stored = CRC cb;
             cb1 = cb\<lparr>CRC := emptyCRC (CRCType cb)\<rparr>;
             cb2 = cb1\<lparr>CRC := stored\<rparr>
         in [cb1, cb2]))"

fun canonicals_CheckCRC_states ::
  "PrimaryBlock \<Rightarrow> CanonicalBlock list \<Rightarrow> CanonicalBlock list \<Rightarrow> Bundle list" where
  "canonicals_CheckCRC_states pb checked [] = []"
| "canonicals_CheckCRC_states pb checked (cb # todo) =
     (let cs = CanonicalBlock_CheckCRC_states cb
      in map (\<lambda>c. \<lparr>PrimaryBlock = pb, CanonicalBlocks = checked @ c # todo\<rparr>) cs
         @ canonicals_CheckCRC_states pb (checked @ [last (cb # cs)]) todo)"

definition Bundle_CheckCRC_states :: "Bundle \<Rightarrow> Bundle list" where
  "Bundle_CheckCRC_states b =
     (let ps = PrimaryBlock_CheckCRC_states (PrimaryBlock b)
      in map (\<lambda>p. \<lparr>PrimaryBlock = p, CanonicalBlocks = CanonicalBlocks b\<rparr>) ps
         @ canonicals_CheckCRC_states (last (PrimaryBlock b # ps)) [] (CanonicalBlocks b))"


section \<open>The properties stated\<close>

subsection \<open>The text syntax of endpoint IDs\<close>

text \<open>
  The syntax of section 6 of the spec: \<^verbatim>\<open>scheme ":" scheme-specific-part\<close> with the scheme
  \<^verbatim>\<open>dtn\<close> or \<^verbatim>\<open>ipn\<close>; a \<^verbatim>\<open>dtn\<close> part is \<^verbatim>\<open>none\<close> or an opaque string, an \<^verbatim>\<open>ipn\<close>
  part is \<^verbatim>\<open><digits>.<digits>\<close> with both values at least 1. \<open>splitAt\<close> cuts a text at
  the first separator.
\<close>

definition splitAt :: "char \<Rightarrow> string \<Rightarrow> (string \<times> string) option" where
  "splitAt sep s =
     (case dropWhile (\<lambda>c. c \<noteq> sep) s of
        [] \<Rightarrow> None
      | _ # rest \<Rightarrow> Some (takeWhile (\<lambda>c. c \<noteq> sep) s, rest))"

definition valid_ipn_number :: "string \<Rightarrow> bool" where
  "valid_ipn_number d = (d \<noteq> [] \<and> list_all isDigit d \<and> 1 \<le> digitsValue d)"

definition valid_eid_text :: "string \<Rightarrow> bool" where
  "valid_eid_text T =
     (case splitAt (CHR '':'') T of
        None \<Rightarrow> False
      | Some (scheme, ssp) \<Rightarrow>
          if scheme = ''dtn'' then True
          else if scheme = ''ipn'' then
            (case splitAt (CHR ''.'') ssp of
               None \<Rightarrow> False
             | Some (node, service) \<Rightarrow> valid_ipn_number node \<and> valid_ipn_number service)
          else False)"


text \<open>
  The texts that \<^verbatim>\<open>String\<close> produces: a \<^verbatim>\<open>dtn\<close> part that is not empty and holds no
  line feed, \<^verbatim>\<open>ipn\<close> numbers without a leading zero and below \<open>2^64\<close>.
\<close>

definition canonical_number :: "string \<Rightarrow> bool" where
  "canonical_number d = (hd d \<noteq> CHR ''0'' \<and> digitsValue d < 2 ^ 64)"

definition canonical_eid_text :: "string \<Rightarrow> bool" where
  "canonical_eid_text T =
     (case splitAt (CHR '':'') T of
        None \<Rightarrow> False
      | Some (scheme, ssp) \<Rightarrow>
          if scheme = ''dtn'' then ssp \<noteq> [] \<and> CHR 0x0A \<notin> set ssp
          else
            (case splitAt (CHR ''.'') ssp of
               None \<Rightarrow> False
             | Some (node, service) \<Rightarrow> canonical_number node \<and> canonical_number service))"


subsection \<open>The violations of a bundle\<close>

text \<open>
  Every violation of a bundle, rule by rule: the errors of each block's own check; one
  error per canonical block that asks for a status report, when the bundle is an
  administrative record or its source is \<^verbatim>\<open>dtn:none\<close>; one error per canonical block whose
  number an earlier block has; one error per block of type PreviousNode, BundleAge or
  HopCount that follows a block of the same type; one error when the creation time is 0
  and no BundleAge block is present.
\<close>

definition blockViolations ::
  "(PrimaryBlock \<Rightarrow> 'e list) \<Rightarrow> (CanonicalBlock \<Rightarrow> 'e list) \<Rightarrow> Bundle \<Rightarrow> 'e violation list" where
  "blockViolations pbValid cbValid b =
     map BlockViolation (pbValid (PrimaryBlock b))
     @ concat (map (\<lambda>cb. map BlockViolation (cbValid cb)) (CanonicalBlocks b))"

definition statusReportViolations :: "Bundle \<Rightarrow> 'e violation list" where
  "statusReportViolations b =
     (if Has (BundleControlFlags (PrimaryBlock b)) AdministrativeRecordPayload
         \<or> SourceNode (PrimaryBlock b) = DtnNone
      then map (\<lambda>cb. BundleViolation statusReportError)
             (filter (\<lambda>cb. Has (BlockControlFlags cb) StatusReportBlock) (CanonicalBlocks b))
      else [])"

definition repeatsNumber :: "CanonicalBlock list \<Rightarrow> nat \<Rightarrow> bool" where
  "repeatsNumber cbs j = (BlockNumber (cbs ! j) \<in> BlockNumber ` set (take j cbs))"

definition duplicateNumberErrors :: "CanonicalBlock list \<Rightarrow> error list" where
  "duplicateNumberErrors cbs =
     map (\<lambda>j. blockNumberError (BlockNumber (cbs ! j)))
       (filter (repeatsNumber cbs) [0..<length cbs])"

definition atMostOnce :: "CanonicalBlockType \<Rightarrow> bool" where
  "atMostOnce t = (t = PreviousNodeBlock \<or> t = BundleAgeBlock \<or> t = HopCountBlock)"

definition repeatsType :: "CanonicalBlock list \<Rightarrow> nat \<Rightarrow> bool" where
  "repeatsType cbs j =
     (atMostOnce (BlockType (cbs ! j)) \<and> BlockType (cbs ! j) \<in> BlockType ` set (take j cbs))"

definition duplicateTypeErrors :: "CanonicalBlock list \<Rightarrow> error list" where
  "duplicateTypeErrors cbs =
     map (\<lambda>j. blockTypeError (BlockType (cbs ! j)))
       (filter (repeatsType cbs) [0..<length cbs])"

definition bundleAgeViolations :: "Bundle \<Rightarrow> 'e violation list" where
  "bundleAgeViolations b =
     (if fst (CreationTimestamp (PrimaryBlock b)) = 0
         \<and> BundleAgeBlock \<notin> BlockType ` set (CanonicalBlocks b)
      then [BundleViolation bundleAgeError] else [])"

definition allViolations ::
  "(PrimaryBlock \<Rightarrow> 'e list) \<Rightarrow> (CanonicalBlock \<Rightarrow> 'e list) \<Rightarrow> Bundle \<Rightarrow> 'e violation list" where
  "allViolations pbValid cbValid b =
     blockViolations pbValid cbValid b
     @ statusReportViolations b
     @ map BundleViolation (duplicateNumberErrors (CanonicalBlocks b))
     @ map BundleViolation (duplicateTypeErrors (CanonicalBlocks b))
     @ bundleAgeViolations b"


text \<open>The invariant of the second loop of \<^verbatim>\<open>checkValid\<close> after the blocks \<open>cbs\<close>.\<close>

definition uniqueInv ::
  "'e violation list \<Rightarrow> CanonicalBlock list
   \<Rightarrow> (uint \<rightharpoonup> bool) \<times> (CanonicalBlockType \<rightharpoonup> bool) \<times> 'e violation list \<Rightarrow> bool" where
  "uniqueInv errs0 cbs st =
     (dom (fst st) = BlockNumber ` set cbs
      \<and> dom (fst (snd st)) = {t \<in> BlockType ` set cbs. atMostOnce t}
      \<and> mset (snd (snd st)) =
          mset errs0 + mset (map BundleViolation (duplicateNumberErrors cbs))
          + mset (map BundleViolation (duplicateTypeErrors cbs)))"


subsection \<open>The CRC check of a bundle\<close>

text \<open>
  A bundle without its CRC values: what must stay as it is while the CRC values are
  checked. The check passes when the stored value of every block is the one computed.
\<close>

definition withoutCRC :: "Bundle \<Rightarrow> Bundle" where
  "withoutCRC b =
     \<lparr>PrimaryBlock = (PrimaryBlock b)\<lparr>PrimaryCRC := []\<rparr>,
      CanonicalBlocks = map (\<lambda>cb. cb\<lparr>CRC := []\<rparr>) (CanonicalBlocks b)\<rparr>"

definition crcMatches ::
  "(PrimaryBlock \<Rightarrow> byte list) \<Rightarrow> (CanonicalBlock \<Rightarrow> byte list)
   \<Rightarrow> (CRCType \<Rightarrow> byte list \<Rightarrow> byte list) \<Rightarrow> Bundle \<Rightarrow> bool" where
  "crcMatches serializePB serializeCB checksum b =
     (fst (PrimaryBlock_CheckCRC serializePB checksum (PrimaryBlock b))
      \<and> list_all (\<lambda>cb. fst (CanonicalBlock_CheckCRC serializeCB checksum cb)) (CanonicalBlocks b))"


subsection \<open>Example values\<close>

definition examplePrimary :: PrimaryBlock where
  "examplePrimary =
     \<lparr>Version = 7, BundleControlFlags = {}, PrimaryCRCType = CRCNo,
      Destination = \<lparr>SchemeName = endpointURISchemeDTN, SchemeSpecificPart = IString ''dest''\<rparr>,
      SourceNode = DtnNone, ReportTo = DtnNone,
      CreationTimestamp = (0, 0), Lifetime = 3600, FragmentOffset = 0, TotalDataLength = 0,
      PrimaryCRC = []\<rparr>"

definition examplePayload :: "uint \<Rightarrow> BlockControlFlag set \<Rightarrow> CanonicalBlock" where
  "examplePayload n flags =
     \<lparr>BlockType = PayloadBlock, BlockNumber = n, BlockControlFlags = flags,
      CRCType = CRCNo, Data = IBytes [], CRC = []\<rparr>"

definition exampleBundle :: Bundle where
  "exampleBundle =
     \<lparr>PrimaryBlock = examplePrimary,
      CanonicalBlocks = [examplePayload 1 {StatusReportBlock}, examplePayload 1 {}]\<rparr>"


text \<open>
  A bundle whose blocks carry CRC values, with a serialization and a checksum to run the
  check on.
\<close>

definition exampleCRCBundle :: Bundle where
  "exampleCRCBundle =
     \<lparr>PrimaryBlock =
        \<lparr>Version = 7, BundleControlFlags = {}, PrimaryCRCType = CRC32,
         Destination = DtnNone, SourceNode = DtnNone, ReportTo = DtnNone,
         CreationTimestamp = (1, 0), Lifetime = 3600, FragmentOffset = 0, TotalDataLength = 0,
         PrimaryCRC = [1, 2, 3, 4]\<rparr>,
      CanonicalBlocks =
        [\<lparr>BlockType = PayloadBlock, BlockNumber = 1, BlockControlFlags = {},
          CRCType = CRC16, Data = IBytes [104, 105], CRC = [5, 6]\<rparr>]\<rparr>"

definition exampleSerializePB :: "PrimaryBlock \<Rightarrow> byte list" where
  "exampleSerializePB pb = PrimaryCRC pb"

definition exampleSerializeCB :: "CanonicalBlock \<Rightarrow> byte list" where
  "exampleSerializeCB cb = CRC cb"

definition exampleChecksum :: "CRCType \<Rightarrow> byte list \<Rightarrow> byte list" where
  "exampleChecksum t bs = map (\<lambda>b. b + 1) bs"

definition exampleMethods :: "string blockMethods" where
  "exampleMethods =
     \<lparr>decodeGeneric = (\<lambda>data. Inr [INil, INil, INil]),
      decodePrimary = (\<lambda>d. Inr examplePrimary),
      decodeCanonical = (\<lambda>d. Inr (examplePayload 1 {StatusReportBlock})),
      pbCheckValid = (\<lambda>pb. [''PrimaryBlock: Wrong Version'']),
      cbCheckValid = (\<lambda>cb. []),
      pbCheckCRC = (\<lambda>pb. (False, pb)),
      cbCheckCRC = (\<lambda>cb. (True, cb))\<rparr>"

text \<open>
  Four byte sequences to decode. CBOR frames a bundle as an array of indefinite length, the
  byte \<^verbatim>\<open>9f\<close>, the blocks, the byte \<^verbatim>\<open>ff\<close> (\<^verbatim>\<open>ToCbor\<close> writes the same frame):
  \<^item> \<^verbatim>\<open>9f\<close> alone is cut before the end of the array, and the library panics;
  \<^item> \<^verbatim>\<open>9f ff\<close> is the array of no element, so that \<^verbatim>\<open>dataArr[0]\<close> is out of range;
  \<^item> \<^verbatim>\<open>9f 00 ff\<close> is the array of the one number 0, which is no array of a block's fields,
    so that no block is decoded from it;
  \<^item> \<^verbatim>\<open>9f\<close>, the eight fields of \<^verbatim>\<open>examplePrimary\<close>, \<^verbatim>\<open>00 ff\<close> is a primary block followed by the
    number 0 where a canonical block should be.

  \<^verbatim>\<open>exampleCodec\<close> stands for the library and the blocks' decoders on these four inputs only:
  every other input is refused.
\<close>

definition examplePrimaryWire :: iface where
  "examplePrimaryWire =
     ISlice [IUint64 7, IUint64 0, IUint64 0,
             ISlice [IUint64 1, IString ''dest''],
             ISlice [IUint64 1, IUint64 0],
             ISlice [IUint64 1, IUint64 0],
             ISlice [IUint64 0, IUint64 0],
             IUint64 3600]"

definition examplePrimaryBytes :: "byte list" where
  "examplePrimaryBytes =
     [0x88, 0x07, 0x00, 0x00,
      0x82, 0x01, 0x64, 0x64, 0x65, 0x73, 0x74,
      0x82, 0x01, 0x00,
      0x82, 0x01, 0x00,
      0x82, 0x00, 0x00,
      0x19, 0x0e, 0x10]"

definition exampleCodec :: "string blockMethods" where
  "exampleCodec =
     \<lparr>decodeGeneric =
        (\<lambda>data.
           if data = [0x9f, 0xff] then Inr []
           else if data = [0x9f, 0x00, 0xff] then Inr [IUint64 0]
           else if data = [0x9f] @ examplePrimaryBytes @ [0x00, 0xff]
             then Inr [examplePrimaryWire, IUint64 0]
           else Inl DecodeFailed),
      decodePrimary = (\<lambda>d. if d = examplePrimaryWire then Inr examplePrimary else Inl DecodeFailed),
      decodeCanonical = (\<lambda>d. Inl DecodeFailed),
      pbCheckValid = (\<lambda>pb. []),
      cbCheckValid = (\<lambda>cb. []),
      pbCheckCRC = (\<lambda>pb. (True, pb)),
      cbCheckCRC = (\<lambda>cb. (True, cb))\<rparr>"


section \<open>Decimal numerals\<close>

lemma isDigit_digitChar: "d < 10 \<Longrightarrow> isDigit (digitChar d)"
  by (simp add: isDigit_def digitChar_def)

lemma digitValue_digitChar: "d < 10 \<Longrightarrow> digitValue (digitChar d) = d"
  by (simp add: digitValue_def digitChar_def)

lemma digitChar_digitValue: "isDigit c \<Longrightarrow> digitChar (digitValue c) = c"
  by (simp add: digitValue_def digitChar_def isDigit_def)

lemma digitValue_less: "isDigit c \<Longrightarrow> digitValue c < 10"
  by (auto simp add: digitValue_def isDigit_def)

lemma digitsValue_snoc: "digitsValue (xs @ [c]) = 10 * digitsValue xs + digitValue c"
  by (simp add: digitsValue_def)

lemma digitsValue_Nil: "digitsValue [] = 0"
  by (simp add: digitsValue_def)

lemma FormatUint_not_Nil: "FormatUint n \<noteq> []"
  by (subst FormatUint.simps) simp

lemma FormatUint_digits: "list_all isDigit (FormatUint n)"
proof (induction n rule: FormatUint.induct)
  case (1 n)
  show ?case
  proof (cases "n < 10")
    case True
    then show ?thesis by (subst FormatUint.simps) (simp add: isDigit_digitChar)
  next
    case False
    with "1" show ?thesis by (subst FormatUint.simps) (simp add: isDigit_digitChar)
  qed
qed

lemma digitsValue_FormatUint: "digitsValue (FormatUint n) = n"
proof (induction n rule: FormatUint.induct)
  case (1 n)
  show ?case
  proof (cases "n < 10")
    case True
    then show ?thesis
      by (subst FormatUint.simps) (simp add: digitsValue_def digitValue_digitChar)
  next
    case False
    with "1" show ?thesis
      by (subst FormatUint.simps) (simp add: digitsValue_snoc digitValue_digitChar)
  qed
qed

lemma digitsValue_pos:
  "xs \<noteq> [] \<Longrightarrow> list_all isDigit xs \<Longrightarrow> hd xs \<noteq> CHR ''0'' \<Longrightarrow> 1 \<le> digitsValue xs"
proof (induction xs rule: rev_induct)
  case Nil
  then show ?case by simp
next
  case (snoc c xs)
  show ?case
  proof (cases "xs = []")
    case True
    with snoc.prems have "isDigit c" and "c \<noteq> CHR ''0''" by simp_all
    have "digitValue c \<noteq> 0"
    proof
      assume "digitValue c = 0"
      with \<open>isDigit c\<close> have "(of_char c :: nat) = of_char (CHR ''0'')"
        by (simp add: digitValue_def isDigit_def)
      then have "c = CHR ''0''" by (rule of_char_eqI)
      with \<open>c \<noteq> CHR ''0''\<close> show False by simp
    qed
    with True show ?thesis by (simp add: digitsValue_def)
  next
    case False
    with snoc have "1 \<le> digitsValue xs" by simp
    then show ?thesis by (simp add: digitsValue_snoc)
  qed
qed

lemma FormatUint_digitsValue:
  "xs \<noteq> [] \<Longrightarrow> list_all isDigit xs \<Longrightarrow> hd xs \<noteq> CHR ''0'' \<Longrightarrow> FormatUint (digitsValue xs) = xs"
proof (induction xs rule: rev_induct)
  case Nil
  then show ?case by simp
next
  case (snoc c xs)
  from snoc.prems have c: "isDigit c" by simp
  show ?case
  proof (cases "xs = []")
    case True
    with c show ?thesis
      by (subst FormatUint.simps) (simp add: digitsValue_def digitValue_less digitChar_digitValue)
  next
    case False
    with snoc.prems have xs: "list_all isDigit xs" "hd xs \<noteq> CHR ''0''" by simp_all
    with False snoc.IH have ih: "FormatUint (digitsValue xs) = xs" by simp
    from False xs have "1 \<le> digitsValue xs" by (rule digitsValue_pos)
    then have big: "\<not> 10 * digitsValue xs + digitValue c < 10" by simp
    have dv: "(10 * digitsValue xs + digitValue c) div 10 = digitsValue xs"
      using digitValue_less [OF c] by simp
    have md: "(10 * digitsValue xs + digitValue c) mod 10 = digitValue c"
      using digitValue_less [OF c] by simp
    show ?thesis
      by (subst FormatUint.simps)
        (simp only: digitsValue_snoc big dv md if_False ih digitChar_digitValue [OF c])
  qed
qed

lemma unat_number:
  "v < 2 ^ 64 \<Longrightarrow> unat (word_of_nat v :: 64 word) = v"
  by (simp add: unat_of_nat)

lemma word_of_number_ge1:
  "1 \<le> v \<Longrightarrow> v < 2 ^ 64 \<Longrightarrow> (word_of_nat v :: 64 word) \<noteq> 0"
  using unat_number [of v] by auto

lemma ParseUint_digits:
  "s \<noteq> [] \<Longrightarrow> list_all isDigit s \<Longrightarrow> digitsValue s < 2 ^ 64 \<Longrightarrow>
   ParseUint s = Inr (word_of_nat (digitsValue s))"
  by (simp add: ParseUint_def)


section \<open>Parsing and rendering endpoint IDs\<close>

lemmas eid_eval = NewEndpointID_def newEndpointIDDTN_def newEndpointIDIPN_def matchEID_def
  matchIPN_def ParseUint_def digitsValue_def digitValue_def isDigit_def isAlnum_def
  endpointURISchemeDTN_def endpointURISchemeIPN_def

lemma splitAt_SomeD:
  "splitAt sep s = Some (a, b) \<Longrightarrow> s = a @ sep # b \<and> sep \<notin> set a"
proof -
  assume h: "splitAt sep s = Some (a, b)"
  let ?P = "\<lambda>c. c \<noteq> sep"
  from h obtain c where d: "dropWhile ?P s = c # b" and a: "a = takeWhile ?P s"
    by (auto simp: splitAt_def split: list.splits)
  from d have "c = hd (dropWhile ?P s)" and "dropWhile ?P s \<noteq> []" by simp_all
  then have "\<not> ?P c" using hd_dropWhile [of ?P s] by blast
  then have c: "c = sep" by simp
  have "s = takeWhile ?P s @ dropWhile ?P s" by simp
  with d a c have s: "s = a @ sep # b" by simp
  have "sep \<notin> set a" unfolding a by (auto dest: set_takeWhileD)
  with s show ?thesis by simp
qed

lemma not_isDigit_dot: "\<not> isDigit (CHR ''.'')"
  by (simp add: isDigit_def)

lemma digits_no_LF: "list_all isDigit s \<Longrightarrow> CHR 0x0A \<notin> set s"
  by (auto simp: list_all_iff isDigit_def)

lemma matchIPN_digits:
  assumes "node \<noteq> []" and "list_all isDigit node"
    and "service \<noteq> []" and "list_all isDigit service"
  shows "matchIPN (node @ CHR ''.'' # service) = Some (node, service)"
proof -
  from assms(2) have all: "\<forall>x\<in>set node. isDigit x" by (simp add: list_all_iff)
  have t: "takeWhile isDigit (node @ CHR ''.'' # service) = node"
    using all by (simp add: takeWhile_append2 not_isDigit_dot)
  have d: "dropWhile isDigit (node @ CHR ''.'' # service) = CHR ''.'' # service"
    using all by (simp add: dropWhile_append2 not_isDigit_dot)
  show ?thesis
    using assms by (simp add: matchIPN_def t d)
qed

lemma newEndpointIDIPN_canonical:
  assumes "node \<noteq> []" and "list_all isDigit node" and "hd node \<noteq> CHR ''0''"
    and "digitsValue node < 2 ^ 64"
    and "service \<noteq> []" and "list_all isDigit service" and "hd service \<noteq> CHR ''0''"
    and "digitsValue service < 2 ^ 64"
  shows "newEndpointIDIPN (node @ CHR ''.'' # service) =
     Inr \<lparr>SchemeName = endpointURISchemeIPN,
          SchemeSpecificPart =
            IArray2 (word_of_nat (digitsValue node)) (word_of_nat (digitsValue service))\<rparr>"
proof -
  have n1: "1 \<le> digitsValue node" using assms(1-3) by (rule digitsValue_pos)
  have s1: "1 \<le> digitsValue service" using assms(5-7) by (rule digitsValue_pos)
  show ?thesis
    using assms
    by (simp add: newEndpointIDIPN_def matchIPN_digits ParseUint_digits word_less_1
        word_of_number_ge1 [OF n1] word_of_number_ge1 [OF s1])
qed

lemma String_ipn_canonical:
  assumes "node \<noteq> []" and "list_all isDigit node" and "hd node \<noteq> CHR ''0''"
    and "digitsValue node < 2 ^ 64"
    and "service \<noteq> []" and "list_all isDigit service" and "hd service \<noteq> CHR ''0''"
    and "digitsValue service < 2 ^ 64"
  shows "EndpointID_String \<lparr>SchemeName = endpointURISchemeIPN,
          SchemeSpecificPart =
            IArray2 (word_of_nat (digitsValue node)) (word_of_nat (digitsValue service))\<rparr>
     = ''ipn:'' @ node @ CHR ''.'' # service"
  using assms
  by (simp add: EndpointID_String_def endpointURISchemeIPN_def endpointURISchemeDTN_def
      unat_number FormatUint_digitsValue)

lemma NewEndpointID_dtn:
  assumes "ssp \<noteq> []" and "CHR 0x0A \<notin> set ssp"
  shows "NewEndpointID (''dtn:'' @ ssp) = newEndpointIDDTN ssp"
proof -
  have "matchEID (''dtn:'' @ ssp) = Some (''dtn'', ssp)"
    using assms by (simp add: matchEID_def isAlnum_def isDigit_def)
  then show ?thesis by (simp add: NewEndpointID_def)
qed

lemma String_newEndpointIDDTN:
  "\<exists>e. newEndpointIDDTN ssp = Inr e \<and> EndpointID_String e = ''dtn:'' @ ssp"
  by (simp add: newEndpointIDDTN_def EndpointID_String_def endpointURISchemeDTN_def)

lemma matchEID_ipn:
  "ssp \<noteq> [] \<Longrightarrow> CHR 0x0A \<notin> set ssp \<Longrightarrow> matchEID (''ipn:'' @ ssp) = Some (''ipn'', ssp)"
  by (simp add: matchEID_def isAlnum_def isDigit_def)


text \<open>
  C4, as amended: for every valid EID text \<open>T\<close> whose \<^verbatim>\<open>dtn\<close> scheme-specific part is not
  empty and holds no line feed, and whose \<^verbatim>\<open>ipn\<close> node and service numbers are written
  without a leading zero and are below \<open>2^64\<close>, \<^verbatim>\<open>NewEndpointID\<close> succeeds and \<^verbatim>\<open>String\<close>
  of the result is exactly \<open>T\<close>.
\<close>

theorem EID_roundtrip:
  assumes v: "valid_eid_text T" and c: "canonical_eid_text T"
  shows "\<exists>e. NewEndpointID T = Inr e \<and> EndpointID_String e = T"
proof -
  from v obtain scheme ssp where sp: "splitAt (CHR '':'') T = Some (scheme, ssp)"
    by (auto simp: valid_eid_text_def split: option.splits)
  then have T: "T = scheme @ CHR '':'' # ssp" by (simp add: splitAt_SomeD)
  show ?thesis
  proof (cases "scheme = ''dtn''")
    case True
    with c sp have ssp: "ssp \<noteq> []" "CHR 0x0A \<notin> set ssp"
      by (simp_all add: canonical_eid_text_def)
    from True T have T': "T = ''dtn:'' @ ssp" by simp
    show ?thesis
      unfolding T' NewEndpointID_dtn [OF ssp] by (rule String_newEndpointIDDTN)
  next
    case False
    with v sp have ipn: "scheme = ''ipn''"
      by (auto simp: valid_eid_text_def split: if_splits)
    with v sp obtain node service where
      sd: "splitAt (CHR ''.'') ssp = Some (node, service)"
      and vn: "valid_ipn_number node" and vs: "valid_ipn_number service"
      by (auto simp: valid_eid_text_def split: option.splits)
    from c sp ipn sd have cn: "canonical_number node" and cs: "canonical_number service"
      by (simp_all add: canonical_eid_text_def)
    from sd have ssp: "ssp = node @ CHR ''.'' # service" by (simp add: splitAt_SomeD)
    from vn cn have n: "node \<noteq> []" "list_all isDigit node" "hd node \<noteq> CHR ''0''"
      "digitsValue node < 2 ^ 64"
      by (simp_all add: valid_ipn_number_def canonical_number_def)
    from vs cs have s: "service \<noteq> []" "list_all isDigit service" "hd service \<noteq> CHR ''0''"
      "digitsValue service < 2 ^ 64"
      by (simp_all add: valid_ipn_number_def canonical_number_def)
    have lf: "CHR 0x0A \<notin> set ssp"
      unfolding ssp using digits_no_LF [OF n(2)] digits_no_LF [OF s(2)] by simp
    have ne: "ssp \<noteq> []" unfolding ssp by simp
    from ipn T have T': "T = ''ipn:'' @ ssp" by simp
    have m: "matchEID T = Some (''ipn'', ssp)"
      unfolding T' using ne lf by (rule matchEID_ipn)
    have p: "NewEndpointID T = newEndpointIDIPN ssp"
      by (simp add: NewEndpointID_def m)
    show ?thesis
      unfolding p unfolding ssp T'
      using newEndpointIDIPN_canonical [OF n s] String_ipn_canonical [OF n s] by simp
  qed
qed


text \<open>The amended round trip at the text \<^verbatim>\<open>ipn:5.2\<close>.\<close>

theorem EID_roundtrip_witness:
  "valid_eid_text ''ipn:5.2'' \<and> canonical_eid_text ''ipn:5.2'' \<and>
   (\<exists>e. NewEndpointID ''ipn:5.2'' = Inr e \<and> EndpointID_String e = ''ipn:5.2'')"
proof -
  have v: "valid_eid_text ''ipn:5.2''"
    by (simp add: valid_eid_text_def splitAt_def valid_ipn_number_def isDigit_def
        digitsValue_def digitValue_def)
  have c: "canonical_eid_text ''ipn:5.2''"
    by (simp add: canonical_eid_text_def splitAt_def canonical_number_def
        digitsValue_def digitValue_def)
  from v c EID_roundtrip [OF v c] show ?thesis by simp
qed


text \<open>
  C4 as stated fails: \<^verbatim>\<open>ipn:05.2\<close> is valid and is rendered as \<^verbatim>\<open>ipn:5.2\<close>; a valid
  \<^verbatim>\<open>ipn\<close> text with a number of \<open>2^64\<close>, the text \<^verbatim>\<open>dtn:\<close> and a \<^verbatim>\<open>dtn\<close> text with a line
  feed are not parsed.
\<close>

theorem EID_roundtrip_counterexample:
  "valid_eid_text ''ipn:05.2''
   \<and> NewEndpointID ''ipn:05.2'' = Inr \<lparr>SchemeName = 2, SchemeSpecificPart = IArray2 5 2\<rparr>
   \<and> EndpointID_String \<lparr>SchemeName = 2, SchemeSpecificPart = IArray2 5 2\<rparr> = ''ipn:5.2''
   \<and> ''ipn:5.2'' \<noteq> ''ipn:05.2''
   \<and> valid_eid_text ''ipn:18446744073709551616.1''
   \<and> NewEndpointID ''ipn:18446744073709551616.1'' = Inl ErrRange
   \<and> valid_eid_text ''dtn:''
   \<and> NewEndpointID ''dtn:'' = Inl (BundleError ''eid does not satisfy regex'')
   \<and> valid_eid_text (''dtn:a'' @ [CHR 0x0A] @ ''b'')
   \<and> NewEndpointID (''dtn:a'' @ [CHR 0x0A] @ ''b'')
       = Inl (BundleError ''eid does not satisfy regex'')"
  by (simp add: eid_eval valid_eid_text_def splitAt_def valid_ipn_number_def
      EndpointID_String_def FormatUint.simps digitChar_def char_of_eq_iff)


text \<open>
  C10: every endpoint ID that \<^verbatim>\<open>NewEndpointID\<close> returns without an error passes
  \<^verbatim>\<open>checkValid\<close>: the check returns, and returns no error.
\<close>

theorem NewEndpointID_checkValid:
  "NewEndpointID eid = Inr e \<Longrightarrow> EndpointID_checkValid e = Inr None"
  by (auto simp: NewEndpointID_def newEndpointIDDTN_def newEndpointIDIPN_def
      EndpointID_checkValid_def checkValidDtn_def checkValidIpn_def
      endpointURISchemeDTN_def endpointURISchemeIPN_def
      split: option.splits if_splits sum.splits prod.splits)


text \<open>The text \<^verbatim>\<open>ipn:5.2\<close> is parsed, and its endpoint ID passes the check.\<close>

theorem NewEndpointID_checkValid_witness:
  "NewEndpointID ''ipn:5.2'' = Inr \<lparr>SchemeName = 2, SchemeSpecificPart = IArray2 5 2\<rparr>
   \<and> EndpointID_checkValid \<lparr>SchemeName = 2, SchemeSpecificPart = IArray2 5 2\<rparr> = Inr None"
proof -
  have p: "NewEndpointID ''ipn:5.2'' = Inr \<lparr>SchemeName = 2, SchemeSpecificPart = IArray2 5 2\<rparr>"
    by (simp add: eid_eval)
  from p NewEndpointID_checkValid [OF p] show ?thesis by simp
qed


section \<open>Decoding endpoint IDs\<close>

text \<open>
  C2, as amended: the scheme-specific part of a decoded array is reinterpreted by its
  run-time shape alone, whatever the scheme name: a sequence that starts with two unsigned
  integers becomes the pair \<^verbatim>\<open>[2]uint64\<close>, an unsigned integer becomes a \<^verbatim>\<open>uint\<close>, a text
  stays a text, and two arrays that differ in the scheme name only give the same
  scheme-specific part or the same panic. So a two-element numeric sequence under the
  \<^verbatim>\<open>dtn\<close> scheme is decoded without an error, to an endpoint ID that \<^verbatim>\<open>checkValid\<close>
  accepts.
\<close>

theorem decode_by_shape:
  "EndpointID_CodecDecodeSelf (Inr arr) = setEndpointIDFromCborArray arr
   \<and> setEndpointIDFromCborArray (IUint64 name # ISlice (IUint64 a # IUint64 b # others) # rest)
     = Inr \<lparr>SchemeName = name, SchemeSpecificPart = IArray2 a b\<rparr>
   \<and> setEndpointIDFromCborArray (IUint64 name # IUint64 v # rest)
     = Inr \<lparr>SchemeName = name, SchemeSpecificPart = IUint v\<rparr>
   \<and> setEndpointIDFromCborArray (IUint64 name # IString s # rest)
     = Inr \<lparr>SchemeName = name, SchemeSpecificPart = IString s\<rparr>
   \<and> map_sum id SchemeSpecificPart (setEndpointIDFromCborArray (IUint64 name # rest))
     = map_sum id SchemeSpecificPart (setEndpointIDFromCborArray (IUint64 name' # rest))
   \<and> EndpointID_checkValid \<lparr>SchemeName = endpointURISchemeDTN, SchemeSpecificPart = IArray2 a b\<rparr>
     = Inr None"
  by (simp add: EndpointID_CodecDecodeSelf_def setEndpointIDFromCborArray_def
      EndpointID_checkValid_def checkValidDtn_def split: list.splits iface.splits)


text \<open>
  C2 as stated fails: the array \<^verbatim>\<open>[1, [5, 2]]\<close> (scheme \<^verbatim>\<open>dtn\<close>, a two-element numeric
  sequence) is decoded without an error, and the result passes \<^verbatim>\<open>checkValid\<close>.
\<close>

theorem decode_dtn_pair_counterexample:
  "EndpointID_CodecDecodeSelf (Inr [IUint64 1, ISlice [IUint64 5, IUint64 2]])
     = Inr \<lparr>SchemeName = endpointURISchemeDTN, SchemeSpecificPart = IArray2 5 2\<rparr>
   \<and> EndpointID_checkValid \<lparr>SchemeName = endpointURISchemeDTN, SchemeSpecificPart = IArray2 5 2\<rparr>
     = Inr None"
  by (simp add: EndpointID_CodecDecodeSelf_def setEndpointIDFromCborArray_def
      EndpointID_checkValid_def checkValidDtn_def endpointURISchemeDTN_def)


section \<open>Validation of a bundle\<close>

lemma forEachBlock_loop:
  "foldl (\<lambda>(done, st) cb. (done @ [cb], st @ g cb)) (d, s) cbs
   = (d @ cbs, s @ concat (map g cbs))"
  by (induction cbs arbitrary: d s) simp_all

lemma forEachBlock_collect:
  "forEachBlock (\<lambda>blck errs. (blck, errs @ f blck)) (\<lambda>blck errs. (blck, errs @ g blck)) b init
   = (b, init @ f (PrimaryBlock b) @ concat (map g (CanonicalBlocks b)))"
  by (simp add: forEachBlock_def forEachBlock_loop)

lemma statusReport_loop:
  "foldl statusReportStep errs cbs =
   errs @ map (\<lambda>cb. BundleViolation statusReportError)
            (filter (\<lambda>cb. Has (BlockControlFlags cb) StatusReportBlock) cbs)"
  by (induction cbs arbitrary: errs) (simp_all add: statusReportStep_def)

lemma map_filter_upt_snoc:
  assumes "\<And>j. j < n \<Longrightarrow> P' j = P j" and "\<And>j. j < n \<Longrightarrow> g' j = g j"
  shows "map g' (filter P' [0..<Suc n]) = map g (filter P [0..<n]) @ (if P' n then [g' n] else [])"
proof -
  have "filter P' [0..<n] = filter P [0..<n]"
    by (rule filter_cong) (simp_all add: assms)
  moreover have "map g' (filter P [0..<n]) = map g (filter P [0..<n])"
    by (rule map_cong) (simp_all add: assms)
  ultimately show ?thesis by simp
qed

lemma duplicateNumberErrors_snoc:
  "duplicateNumberErrors (cbs @ [cb]) =
   duplicateNumberErrors cbs
   @ (if BlockNumber cb \<in> BlockNumber ` set cbs then [blockNumberError (BlockNumber cb)] else [])"
proof -
  have "map (\<lambda>j. blockNumberError (BlockNumber ((cbs @ [cb]) ! j)))
          (filter (repeatsNumber (cbs @ [cb])) [0..<Suc (length cbs)])
      = map (\<lambda>j. blockNumberError (BlockNumber (cbs ! j)))
          (filter (repeatsNumber cbs) [0..<length cbs])
        @ (if repeatsNumber (cbs @ [cb]) (length cbs)
           then [blockNumberError (BlockNumber ((cbs @ [cb]) ! length cbs))] else [])"
    by (rule map_filter_upt_snoc) (simp_all add: repeatsNumber_def nth_append)
  then show ?thesis
    by (simp add: duplicateNumberErrors_def repeatsNumber_def)
qed

lemma duplicateTypeErrors_snoc:
  "duplicateTypeErrors (cbs @ [cb]) =
   duplicateTypeErrors cbs
   @ (if atMostOnce (BlockType cb) \<and> BlockType cb \<in> BlockType ` set cbs
      then [blockTypeError (BlockType cb)] else [])"
proof -
  have "map (\<lambda>j. blockTypeError (BlockType ((cbs @ [cb]) ! j)))
          (filter (repeatsType (cbs @ [cb])) [0..<Suc (length cbs)])
      = map (\<lambda>j. blockTypeError (BlockType (cbs ! j)))
          (filter (repeatsType cbs) [0..<length cbs])
        @ (if repeatsType (cbs @ [cb]) (length cbs)
           then [blockTypeError (BlockType ((cbs @ [cb]) ! length cbs))] else [])"
    by (rule map_filter_upt_snoc) (simp_all add: repeatsType_def nth_append)
  then show ?thesis
    by (simp add: duplicateTypeErrors_def repeatsType_def)
qed

lemma uniqueStep_eq:
  "uniqueStep (nums, types, errs) cb =
     (nums(BlockNumber cb \<mapsto> True),
      if atMostOnce (BlockType cb) then types(BlockType cb \<mapsto> True) else types,
      errs
      @ (if nums (BlockNumber cb) \<noteq> None
         then [BundleViolation (blockNumberError (BlockNumber cb))] else [])
      @ (if atMostOnce (BlockType cb) \<and> types (BlockType cb) \<noteq> None
         then [BundleViolation (blockTypeError (BlockType cb))] else []))"
  by (simp add: uniqueStep_def atMostOnce_def Let_def)

lemma seen_number:
  assumes n: "dom nums = BlockNumber ` set cbs"
  shows "(nums (BlockNumber cb) \<noteq> None) = (BlockNumber cb \<in> BlockNumber ` set cbs)"
    using n by (auto simp: dom_def)

lemma dom_numbers_step:
  "dom nums = BlockNumber ` set cbs \<Longrightarrow>
   dom (nums(BlockNumber cb \<mapsto> True)) = BlockNumber ` set (cbs @ [cb])"
  by auto

lemma dom_types_step:
  assumes  t: "dom types = {t \<in> BlockType ` set cbs. atMostOnce t}"
  shows "dom (if atMostOnce (BlockType cb) then types(BlockType cb \<mapsto> True) else types)
      = {t \<in> BlockType ` set (cbs @ [cb]). atMostOnce t}"
    using t by auto

lemma seen_type:
  assumes  t: "dom types = {t \<in> BlockType ` set cbs. atMostOnce t}"
  shows "(atMostOnce (BlockType cb) \<and> types (BlockType cb) \<noteq> None)
      = (atMostOnce (BlockType cb) \<and> BlockType cb \<in> BlockType ` set cbs)"
proof (cases "atMostOnce (BlockType cb)")
  case True
  have "(types (BlockType cb) \<noteq> None) = (BlockType cb \<in> dom types)" by (simp add: dom_def)
  also have "\<dots> = (BlockType cb \<in> BlockType ` set cbs)" unfolding t using True by simp
  finally show ?thesis by simp
next
  case False
  then show ?thesis by simp
qed

lemma errs_step:
  assumes e: "mset errs = mset errs0 + mset (map BundleViolation (duplicateNumberErrors cbs))
          + mset (map BundleViolation (duplicateTypeErrors cbs))"
   and nn: "(nums (BlockNumber cb) \<noteq> None) = (BlockNumber cb \<in> BlockNumber ` set cbs)"
   and tt: "(atMostOnce (BlockType cb) \<and> types (BlockType cb) \<noteq> None)
      = (atMostOnce (BlockType cb) \<and> BlockType cb \<in> BlockType ` set cbs)"
  shows "mset (errs
      @ (if nums (BlockNumber cb) \<noteq> None
         then [BundleViolation (blockNumberError (BlockNumber cb))] else [])
      @ (if atMostOnce (BlockType cb) \<and> types (BlockType cb) \<noteq> None
         then [BundleViolation (blockTypeError (BlockType cb))] else []))
     = mset errs0 + mset (map BundleViolation (duplicateNumberErrors (cbs @ [cb])))
          + mset (map BundleViolation (duplicateTypeErrors (cbs @ [cb])))"
proof -
  have a: "(if nums (BlockNumber cb) \<noteq> None
         then [BundleViolation (blockNumberError (BlockNumber cb))] else [])
     = map BundleViolation (if BlockNumber cb \<in> BlockNumber ` set cbs
         then [blockNumberError (BlockNumber cb)] else [])"
    by (simp only: nn) simp
  have b: "(if atMostOnce (BlockType cb) \<and> types (BlockType cb) \<noteq> None
         then [BundleViolation (blockTypeError (BlockType cb))] else [])
     = map BundleViolation (if atMostOnce (BlockType cb) \<and> BlockType cb \<in> BlockType ` set cbs
         then [blockTypeError (BlockType cb)] else [])"
    by (simp only: tt) simp
  show ?thesis
    by (simp only: a b duplicateNumberErrors_snoc duplicateTypeErrors_snoc map_append
        mset_append e ac_simps)
qed

lemma uniqueInv_step:
  assumes "uniqueInv errs0 cbs st"
  shows "uniqueInv errs0 (cbs @ [cb]) (uniqueStep st cb)"
proof -
  obtain nums types errs where st: "st = (nums, types, errs)" by (cases st)
  from assms have n: "dom nums = BlockNumber ` set cbs"
    and t: "dom types = {t \<in> BlockType ` set cbs. atMostOnce t}"
    and e: "mset errs = mset errs0 + mset (map BundleViolation (duplicateNumberErrors cbs))
          + mset (map BundleViolation (duplicateTypeErrors cbs))"
    by (simp_all add: uniqueInv_def st)
  show ?thesis
    unfolding st uniqueStep_eq uniqueInv_def fst_conv snd_conv
    apply (rule conjI, rule dom_numbers_step [OF n])
    apply (rule conjI, rule dom_types_step [OF t])
    apply (rule errs_step [where nums = nums and types = types and cb = cb,
        OF e seen_number [OF n, where cb = cb] seen_type [OF t, where cb = cb]])
    done
qed

lemma unique_loop:
  "uniqueInv errs0 cbs (foldl uniqueStep (Map.empty, Map.empty, errs0) cbs)"
proof (induction cbs rule: rev_induct)
  case Nil
  show ?case by (simp add: uniqueInv_def duplicateNumberErrors_def duplicateTypeErrors_def)
next
  case (snoc cb cbs)
  have "foldl uniqueStep (Map.empty, Map.empty, errs0) (cbs @ [cb])
      = uniqueStep (foldl uniqueStep (Map.empty, Map.empty, errs0) cbs) cb"
    by (simp only: foldl_append foldl.simps)
  with uniqueInv_step [OF snoc] show ?case by (simp only:)
qed

lemma checkValid_decomposed:
  "\<exists>errs2. Bundle_checkValid pbValid cbValid b = errs2 @ bundleAgeViolations b
     \<and> mset errs2 =
         mset (blockViolations pbValid cbValid b) + mset (statusReportViolations b)
         + mset (map BundleViolation (duplicateNumberErrors (CanonicalBlocks b)))
         + mset (map BundleViolation (duplicateTypeErrors (CanonicalBlocks b)))"
proof -
  let ?cbs = "CanonicalBlocks b"
  let ?errs0 = "blockViolations pbValid cbValid b"
  let ?errs1 = "?errs0 @ statusReportViolations b"
  have e0: "snd (forEachBlock
              (\<lambda>blck errs. (blck, errs @ map BlockViolation (pbValid blck)))
              (\<lambda>blck errs. (blck, errs @ map BlockViolation (cbValid blck)))
              b []) = ?errs0"
    by (simp add: forEachBlock_collect blockViolations_def)
  have e1: "(if Has (BundleControlFlags (PrimaryBlock b)) AdministrativeRecordPayload
                \<or> SourceNode (PrimaryBlock b) = DtnNone
             then foldl statusReportStep ?errs0 ?cbs else ?errs0) = ?errs1"
    by (simp add: statusReport_loop statusReportViolations_def)
  obtain nums types errs2 where
    f: "foldl uniqueStep (Map.empty, Map.empty, ?errs1) ?cbs = (nums, types, errs2)"
    by (cases "foldl uniqueStep (Map.empty, Map.empty, ?errs1) ?cbs")
  from unique_loop [of ?errs1 ?cbs] have
    t: "dom types = {t \<in> BlockType ` set ?cbs. atMostOnce t}"
    and e: "mset errs2 = mset ?errs1 + mset (map BundleViolation (duplicateNumberErrors ?cbs))
          + mset (map BundleViolation (duplicateTypeErrors ?cbs))"
    by (simp_all add: uniqueInv_def f)
  have "(types BundleAgeBlock = None) = (BundleAgeBlock \<notin> dom types)"
    by (simp add: dom_def)
  also have "\<dots> = (BundleAgeBlock \<notin> BlockType ` set ?cbs)"
    unfolding t by (simp add: atMostOnce_def)
  finally have age: "(types BundleAgeBlock = None) = (BundleAgeBlock \<notin> BlockType ` set ?cbs)" .
  have r: "Bundle_checkValid pbValid cbValid b = errs2 @ bundleAgeViolations b"
    unfolding Bundle_checkValid_def e0 Let_def e1 f prod.case age bundleAgeViolations_def
    by simp
  from r e show ?thesis by simp
qed

lemma bundleAgeError_distinct:
  "bundleAgeError \<noteq> statusReportError"
  "bundleAgeError \<noteq> blockNumberError n"
  "bundleAgeError \<noteq> blockTypeError t"
  by (simp_all add: bundleAgeError_def statusReportError_def blockNumberError_def
      blockTypeError_def)

lemma statusReportError_distinct:
  "statusReportError \<noteq> bundleAgeError"
  "statusReportError \<noteq> blockNumberError n"
  "statusReportError \<noteq> blockTypeError t"
  by (simp_all add: bundleAgeError_def statusReportError_def blockNumberError_def
      blockTypeError_def)

lemma bundleAgeError_not_earlier:
  assumes "mset errs2 =
         mset (blockViolations pbValid cbValid b) + mset (statusReportViolations b)
         + mset (map BundleViolation (duplicateNumberErrors (CanonicalBlocks b)))
         + mset (map BundleViolation (duplicateTypeErrors (CanonicalBlocks b)))"
  shows "BundleViolation bundleAgeError \<notin> set errs2"
proof -
  have "set errs2 = set_mset (mset errs2)" by simp
  also have "\<dots> = set (blockViolations pbValid cbValid b) \<union> set (statusReportViolations b)
      \<union> BundleViolation ` set (duplicateNumberErrors (CanonicalBlocks b))
      \<union> BundleViolation ` set (duplicateTypeErrors (CanonicalBlocks b))"
    unfolding assms by simp
  finally show ?thesis
    by (auto simp: blockViolations_def statusReportViolations_def duplicateNumberErrors_def
        duplicateTypeErrors_def bundleAgeError_distinct)
qed

lemma count_replicated:
  "count (mset (map (\<lambda>x. c) xs)) c = length xs"
  by (induction xs) simp_all

lemma count_not_member: "x \<notin> set xs \<Longrightarrow> count (mset xs) x = 0"
  by (simp add: count_eq_zero_iff)


lemma NewBundleFromCbor_decoded:
  assumes "decodeGeneric m data = Inr (d0 # ds)" and "decodePrimary m d0 = Inr pb"
    and "decodeCanonicals (decodeCanonical m) ds = Inr cbs"
  shows "snd (NewBundleFromCbor m data) =
     Bundle_checkValid (pbCheckValid m) (cbCheckValid m) \<lparr>PrimaryBlock = pb, CanonicalBlocks = cbs\<rparr>
     @ (if fst (Bundle_CheckCRC (pbCheckCRC m) (cbCheckCRC m)
                 \<lparr>PrimaryBlock = pb, CanonicalBlocks = cbs\<rparr>)
        then [] else [BundleViolation (BundleError ''CRC failed'')])"
  using assms
  by (simp add: NewBundleFromCbor_def NewBundleFromCbor_body_def decodeBundleBlock_def Let_def
      split: prod.splits)

text \<open>
  C3: \<^verbatim>\<open>checkValid\<close> returns every violation of the bundle, each as often as it occurs:
  the errors of all blocks and of all four rules it checks, whatever else is violated.
  \<^verbatim>\<open>NewBundle\<close> returns the bundle with that aggregate, and \<^verbatim>\<open>NewBundleFromCbor\<close>, once
  the blocks are decoded, that aggregate and the error of a failed CRC check.
\<close>

theorem checkValid_aggregates:
  "mset (Bundle_checkValid pbValid cbValid b) = mset (allViolations pbValid cbValid b)
   \<and> NewBundle pbValid cbValid (PrimaryBlock b) (CanonicalBlocks b)
       = (b, Bundle_checkValid pbValid cbValid b)
   \<and> (decodeGeneric m data = Inr (d0 # ds) \<and> decodePrimary m d0 = Inr pb
        \<and> decodeCanonicals (decodeCanonical m) ds = Inr cbs \<longrightarrow>
      mset (snd (NewBundleFromCbor m data)) =
        mset (allViolations (pbCheckValid m) (cbCheckValid m)
                \<lparr>PrimaryBlock = pb, CanonicalBlocks = cbs\<rparr>)
        + (if fst (Bundle_CheckCRC (pbCheckCRC m) (cbCheckCRC m)
                 \<lparr>PrimaryBlock = pb, CanonicalBlocks = cbs\<rparr>)
           then {#} else {#BundleViolation (BundleError ''CRC failed'')#}))"
proof -
  have all: "\<And>pbValid cbValid b. mset (Bundle_checkValid pbValid cbValid b)
      = mset (allViolations pbValid cbValid (b :: Bundle))"
  proof -
    fix pbValid :: "PrimaryBlock \<Rightarrow> 'x list" and cbValid :: "CanonicalBlock \<Rightarrow> 'x list"
      and b :: Bundle
    obtain errs2 where r: "Bundle_checkValid pbValid cbValid b = errs2 @ bundleAgeViolations b"
      and e: "mset errs2 =
           mset (blockViolations pbValid cbValid b) + mset (statusReportViolations b)
           + mset (map BundleViolation (duplicateNumberErrors (CanonicalBlocks b)))
           + mset (map BundleViolation (duplicateTypeErrors (CanonicalBlocks b)))"
      using checkValid_decomposed [of pbValid cbValid b] by blast
    show "mset (Bundle_checkValid pbValid cbValid b) = mset (allViolations pbValid cbValid b)"
      unfolding r allViolations_def mset_append e by (simp only: ac_simps)
  qed
  have eta: "\<lparr>PrimaryBlock = PrimaryBlock b, CanonicalBlocks = CanonicalBlocks b\<rparr> = b"
    by (cases b) simp
  have n: "NewBundle pbValid cbValid (PrimaryBlock b) (CanonicalBlocks b)
       = (b, Bundle_checkValid pbValid cbValid b)"
    unfolding NewBundle_def Let_def eta by (rule refl)
  have d: "decodeGeneric m data = Inr (d0 # ds) \<and> decodePrimary m d0 = Inr pb
        \<and> decodeCanonicals (decodeCanonical m) ds = Inr cbs \<longrightarrow>
      mset (snd (NewBundleFromCbor m data)) =
        mset (allViolations (pbCheckValid m) (cbCheckValid m)
                \<lparr>PrimaryBlock = pb, CanonicalBlocks = cbs\<rparr>)
        + (if fst (Bundle_CheckCRC (pbCheckCRC m) (cbCheckCRC m)
                 \<lparr>PrimaryBlock = pb, CanonicalBlocks = cbs\<rparr>)
           then {#} else {#BundleViolation (BundleError ''CRC failed'')#})"
  proof
    assume a: "decodeGeneric m data = Inr (d0 # ds) \<and> decodePrimary m d0 = Inr pb
        \<and> decodeCanonicals (decodeCanonical m) ds = Inr cbs"
    then have "snd (NewBundleFromCbor m data) =
       Bundle_checkValid (pbCheckValid m) (cbCheckValid m) \<lparr>PrimaryBlock = pb, CanonicalBlocks = cbs\<rparr>
       @ (if fst (Bundle_CheckCRC (pbCheckCRC m) (cbCheckCRC m)
                 \<lparr>PrimaryBlock = pb, CanonicalBlocks = cbs\<rparr>)
        then [] else [BundleViolation (BundleError ''CRC failed'')])"
      by (simp add: NewBundleFromCbor_decoded)
    then show "mset (snd (NewBundleFromCbor m data)) =
        mset (allViolations (pbCheckValid m) (cbCheckValid m)
                \<lparr>PrimaryBlock = pb, CanonicalBlocks = cbs\<rparr>)
        + (if fst (Bundle_CheckCRC (pbCheckCRC m) (cbCheckCRC m)
                 \<lparr>PrimaryBlock = pb, CanonicalBlocks = cbs\<rparr>)
           then {#} else {#BundleViolation (BundleError ''CRC failed'')#})"
      by (simp add: all)
  qed
  from all [of pbValid cbValid b] n d show ?thesis by blast
qed


text \<open>
  A bundle with four violations (an error of the primary block, a status report request
  under the source \<^verbatim>\<open>dtn:none\<close>, a repeated block number, no BundleAge block at creation
  time 0): all four are returned. A decoded bundle with one more status report request
  and a failing CRC check: all six errors are returned.
\<close>

theorem checkValid_aggregates_witness:
  "mset (Bundle_checkValid (\<lambda>pb. [''PrimaryBlock: Wrong Version'']) (\<lambda>cb. []) exampleBundle)
   = {#BlockViolation ''PrimaryBlock: Wrong Version'', BundleViolation statusReportError,
       BundleViolation (blockNumberError 1), BundleViolation bundleAgeError#}
   \<and> mset (snd (NewBundleFromCbor exampleMethods []))
   = {#BlockViolation ''PrimaryBlock: Wrong Version'', BundleViolation statusReportError,
       BundleViolation statusReportError,
       BundleViolation (blockNumberError 1), BundleViolation bundleAgeError,
       BundleViolation (BundleError ''CRC failed'')#}"
proof -
  have h: "decodeGeneric exampleMethods [] = Inr [INil, INil, INil]
      \<and> decodePrimary exampleMethods INil = Inr examplePrimary
      \<and> decodeCanonicals (decodeCanonical exampleMethods) [INil, INil]
          = Inr [examplePayload 1 {StatusReportBlock}, examplePayload 1 {StatusReportBlock}]"
    by (simp add: exampleMethods_def decodeBundleBlock_def)
  have c: "fst (Bundle_CheckCRC (pbCheckCRC exampleMethods) (cbCheckCRC exampleMethods)
       \<lparr>PrimaryBlock = examplePrimary,
          CanonicalBlocks = [examplePayload 1 {StatusReportBlock},
                             examplePayload 1 {StatusReportBlock}]\<rparr>) = False"
    by (simp add: Bundle_CheckCRC_def forEachBlock_def exampleMethods_def)
  from h c checkValid_aggregates [of "\<lambda>pb. [''PrimaryBlock: Wrong Version'']" "\<lambda>cb. []" exampleBundle
      exampleMethods "[]" INil "[INil, INil]" examplePrimary
      "[examplePayload 1 {StatusReportBlock}, examplePayload 1 {StatusReportBlock}]"]
  show ?thesis
    by (simp add: allViolations_def blockViolations_def statusReportViolations_def
      bundleAgeViolations_def duplicateNumberErrors_def duplicateTypeErrors_def
      repeatsNumber_def repeatsType_def atMostOnce_def
      exampleBundle_def examplePrimary_def examplePayload_def Has_def exampleMethods_def)
qed


text \<open>
  C7: \<^verbatim>\<open>checkValid\<close> reports the missing BundleAge block exactly when the creation time is
  0 and no canonical block has the type BundleAge.
\<close>

theorem checkValid_missing_BundleAge:
  "(BundleViolation bundleAgeError \<in> set (Bundle_checkValid pbValid cbValid b)) =
   (fst (CreationTimestamp (PrimaryBlock b)) = 0
    \<and> BundleAgeBlock \<notin> BlockType ` set (CanonicalBlocks b))"
proof -
  obtain errs2 where r: "Bundle_checkValid pbValid cbValid b = errs2 @ bundleAgeViolations b"
    and e: "mset errs2 =
         mset (blockViolations pbValid cbValid b) + mset (statusReportViolations b)
         + mset (map BundleViolation (duplicateNumberErrors (CanonicalBlocks b)))
         + mset (map BundleViolation (duplicateTypeErrors (CanonicalBlocks b)))"
    using checkValid_decomposed [of pbValid cbValid b] by blast
  from bundleAgeError_not_earlier [OF e] show ?thesis
    unfolding r by (simp add: bundleAgeViolations_def)
qed


text \<open>The example bundle has creation time 0 and no BundleAge block.\<close>

theorem checkValid_missing_BundleAge_witness:
  "BundleViolation bundleAgeError
     \<in> set (Bundle_checkValid (\<lambda>pb. [] :: string list) (\<lambda>cb. []) exampleBundle)"
  using checkValid_missing_BundleAge [of "\<lambda>pb. [] :: string list" "\<lambda>cb. []" exampleBundle]
  by (simp add: exampleBundle_def examplePrimary_def examplePayload_def)


text \<open>
  C8: when the bundle is flagged as an administrative record or its source is
  \<^verbatim>\<open>dtn:none\<close>, \<^verbatim>\<open>checkValid\<close> reports one violation per canonical block that has the
  status report flag; otherwise it reports none.
\<close>

theorem checkValid_status_report:
  "count (mset (Bundle_checkValid pbValid cbValid b)) (BundleViolation statusReportError) =
   (if Has (BundleControlFlags (PrimaryBlock b)) AdministrativeRecordPayload
       \<or> SourceNode (PrimaryBlock b) = DtnNone
    then length (filter (\<lambda>cb. Has (BlockControlFlags cb) StatusReportBlock) (CanonicalBlocks b))
    else 0)"
proof -
  let ?v = "BundleViolation statusReportError :: 'a violation"
  obtain errs2 where r: "Bundle_checkValid pbValid cbValid b = errs2 @ bundleAgeViolations b"
    and e: "mset errs2 =
         mset (blockViolations pbValid cbValid b) + mset (statusReportViolations b)
         + mset (map BundleViolation (duplicateNumberErrors (CanonicalBlocks b)))
         + mset (map BundleViolation (duplicateTypeErrors (CanonicalBlocks b)))"
    using checkValid_decomposed [of pbValid cbValid b] by blast
  have c0: "count (mset (blockViolations pbValid cbValid b)) ?v = 0"
    by (rule count_not_member) (auto simp: blockViolations_def)
  have c2: "count (mset (map BundleViolation (duplicateNumberErrors (CanonicalBlocks b)))) ?v = 0"
    by (rule count_not_member)
      (auto simp: duplicateNumberErrors_def statusReportError_distinct)
  have c3: "count (mset (map BundleViolation (duplicateTypeErrors (CanonicalBlocks b)))) ?v = 0"
    by (rule count_not_member)
      (auto simp: duplicateTypeErrors_def statusReportError_distinct)
  have c4: "count (mset (bundleAgeViolations b)) ?v = 0"
    by (rule count_not_member)
      (auto simp: bundleAgeViolations_def statusReportError_distinct)
  have c1: "count (mset (statusReportViolations b)) ?v =
   (if Has (BundleControlFlags (PrimaryBlock b)) AdministrativeRecordPayload
       \<or> SourceNode (PrimaryBlock b) = DtnNone
    then length (filter (\<lambda>cb. Has (BlockControlFlags cb) StatusReportBlock) (CanonicalBlocks b))
    else 0)"
  proof (cases "Has (BundleControlFlags (PrimaryBlock b)) AdministrativeRecordPayload
       \<or> SourceNode (PrimaryBlock b) = DtnNone")
    case True
    then show ?thesis
      unfolding statusReportViolations_def by (simp only: if_True count_replicated)
  next
    case False
    then show ?thesis
      unfolding statusReportViolations_def by (simp only: if_False) simp
  qed
  show ?thesis
    unfolding r mset_append e by (simp only: count_union c0 c1 c2 c3 c4 add_0 add_0_right)
qed


text \<open>The example bundle has the source \<^verbatim>\<open>dtn:none\<close> and one block with the flag.\<close>

theorem checkValid_status_report_witness:
  "count (mset (Bundle_checkValid (\<lambda>pb. [] :: string list) (\<lambda>cb. []) exampleBundle))
     (BundleViolation statusReportError) = 1"
  using checkValid_status_report [of "\<lambda>pb. [] :: string list" "\<lambda>cb. []" exampleBundle]
  by (simp add: exampleBundle_def examplePrimary_def examplePayload_def Has_def)


section \<open>The CRC check\<close>

lemma PrimaryBlock_CheckCRC_restores:
  "snd (PrimaryBlock_CheckCRC serialize checksum pb) = pb"
  by (simp add: PrimaryBlock_CheckCRC_def Let_def)

lemma CanonicalBlock_CheckCRC_restores:
  "snd (CanonicalBlock_CheckCRC serialize checksum cb) = cb"
  by (simp add: CanonicalBlock_CheckCRC_def Let_def)

lemma CheckCRC_loop:
  assumes "\<And>cb. snd (f cb) = cb"
  shows "foldl (\<lambda>(done, st) cb.
                  case (case f cb of (ok, blck') \<Rightarrow> (blck', if \<not> ok then False else st)) of
                    (cb', st') \<Rightarrow> (done @ [cb'], st'))
           (d, flag) cbs
         = (d @ cbs, flag \<and> list_all (\<lambda>cb. fst (f cb)) cbs)"
proof (induction cbs arbitrary: d flag)
  case Nil
  show ?case by simp
next
  case (Cons cb cbs)
  obtain ok blck' where f: "f cb = (ok, blck')" by (cases "f cb")
  with assms [of cb] have b: "blck' = cb" by simp
  show ?case
    using Cons [of "d @ [cb]" "if \<not> ok then False else flag"]
    by (auto simp: f b)
qed

lemma Bundle_CheckCRC_eq:
  assumes "\<And>pb. snd (fp pb) = pb" and "\<And>cb. snd (fc cb) = cb"
  shows "Bundle_CheckCRC fp fc b =
     (fst (fp (PrimaryBlock b)) \<and> list_all (\<lambda>cb. fst (fc cb)) (CanonicalBlocks b), b)"
proof -
  obtain ok pb' where f: "fp (PrimaryBlock b) = (ok, pb')" by (cases "fp (PrimaryBlock b)")
  with assms(1) [of "PrimaryBlock b"] have p: "pb' = PrimaryBlock b" by simp
  have eta: "\<lparr>PrimaryBlock = PrimaryBlock b, CanonicalBlocks = CanonicalBlocks b\<rparr> = b"
    by (cases b) simp
  show ?thesis
    unfolding Bundle_CheckCRC_def forEachBlock_def
    by (simp add: f p CheckCRC_loop [OF assms(2)] eta)
qed

lemma PrimaryBlock_states_last:
  "(if PrimaryBlock_CheckCRC_states pb = [] then pb
    else last (PrimaryBlock_CheckCRC_states pb)) = pb"
  by (simp add: PrimaryBlock_CheckCRC_states_def Let_def)

lemma CanonicalBlock_states_last:
  "(if CanonicalBlock_CheckCRC_states cb = [] then cb
    else last (CanonicalBlock_CheckCRC_states cb)) = cb"
  by (simp add: CanonicalBlock_CheckCRC_states_def Let_def)

lemma PrimaryBlock_states_fields:
  "p \<in> set (PrimaryBlock_CheckCRC_states pb) \<Longrightarrow> p\<lparr>PrimaryCRC := []\<rparr> = pb\<lparr>PrimaryCRC := []\<rparr>"
  by (auto simp: PrimaryBlock_CheckCRC_states_def Let_def split: if_splits)

lemma CanonicalBlock_states_fields:
  "c \<in> set (CanonicalBlock_CheckCRC_states cb) \<Longrightarrow> c\<lparr>CRC := []\<rparr> = cb\<lparr>CRC := []\<rparr>"
  by (auto simp: CanonicalBlock_CheckCRC_states_def Let_def split: if_splits)

lemma canonicals_states_fields:
  "s \<in> set (canonicals_CheckCRC_states pb checked todo) \<Longrightarrow>
   withoutCRC s = withoutCRC \<lparr>PrimaryBlock = pb, CanonicalBlocks = checked @ todo\<rparr>"
proof (induction todo arbitrary: checked)
  case Nil
  then show ?case by simp
next
  case (Cons cb todo)
  from Cons.prems consider
    (here) c where "c \<in> set (CanonicalBlock_CheckCRC_states cb)"
      and "s = \<lparr>PrimaryBlock = pb, CanonicalBlocks = checked @ c # todo\<rparr>"
    | (later) "s \<in> set (canonicals_CheckCRC_states pb (checked @ [cb]) todo)"
    by (auto simp: Let_def CanonicalBlock_states_last)
  then show ?case
  proof cases
    case here
    then show ?thesis
      by (simp add: withoutCRC_def CanonicalBlock_states_fields)
  next
    case later
    from Cons.IH [OF later] show ?thesis by simp
  qed
qed

lemma Bundle_states_fields:
  "s \<in> set (Bundle_CheckCRC_states b) \<Longrightarrow> withoutCRC s = withoutCRC b"
proof -
  assume s: "s \<in> set (Bundle_CheckCRC_states b)"
  have eta: "\<lparr>PrimaryBlock = PrimaryBlock b, CanonicalBlocks = CanonicalBlocks b\<rparr> = b"
    by (cases b) simp
  from s consider
    (primary) p where "p \<in> set (PrimaryBlock_CheckCRC_states (PrimaryBlock b))"
      and "s = \<lparr>PrimaryBlock = p, CanonicalBlocks = CanonicalBlocks b\<rparr>"
    | (canonical) "s \<in> set (canonicals_CheckCRC_states (PrimaryBlock b) [] (CanonicalBlocks b))"
    by (auto simp: Bundle_CheckCRC_states_def Let_def PrimaryBlock_states_last)
  then show ?thesis
  proof cases
    case primary
    then show ?thesis by (simp add: withoutCRC_def PrimaryBlock_states_fields)
  next
    case canonical
    from canonicals_states_fields [OF canonical] show ?thesis by (simp add: eta)
  qed
qed

lemma CanonicalBlock_states_end:
  "CanonicalBlock_CheckCRC_states cb \<noteq> [] \<Longrightarrow> last (CanonicalBlock_CheckCRC_states cb) = cb"
  using CanonicalBlock_states_last [of cb] by (simp split: if_splits)

lemma PrimaryBlock_states_end:
  "PrimaryBlock_CheckCRC_states pb \<noteq> [] \<Longrightarrow> last (PrimaryBlock_CheckCRC_states pb) = pb"
  using PrimaryBlock_states_last [of pb] by (simp split: if_splits)

lemma canonicals_states_end:
  "canonicals_CheckCRC_states pb checked todo \<noteq> [] \<Longrightarrow>
   last (canonicals_CheckCRC_states pb checked todo)
     = \<lparr>PrimaryBlock = pb, CanonicalBlocks = checked @ todo\<rparr>"
proof (induction todo arbitrary: checked)
  case Nil
  then show ?case by simp
next
  case (Cons cb todo)
  let ?cs = "CanonicalBlock_CheckCRC_states cb"
  let ?rest = "canonicals_CheckCRC_states pb (checked @ [cb]) todo"
  have eq: "canonicals_CheckCRC_states pb checked (cb # todo)
      = map (\<lambda>c. \<lparr>PrimaryBlock = pb, CanonicalBlocks = checked @ c # todo\<rparr>) ?cs @ ?rest"
    by (simp add: Let_def CanonicalBlock_states_last)
  show ?case
  proof (cases "?rest = []")
    case True
    with Cons.prems eq have ne: "?cs \<noteq> []" by auto
    show ?thesis
      unfolding eq True using ne by (simp add: last_map CanonicalBlock_states_end)
  next
    case False
    from Cons.IH [OF False] False show ?thesis unfolding eq by simp
  qed
qed

lemma Bundle_states_end:
  "Bundle_CheckCRC_states b \<noteq> [] \<Longrightarrow> last (Bundle_CheckCRC_states b) = b"
proof -
  assume ne: "Bundle_CheckCRC_states b \<noteq> []"
  let ?ps = "PrimaryBlock_CheckCRC_states (PrimaryBlock b)"
  let ?rest = "canonicals_CheckCRC_states (PrimaryBlock b) [] (CanonicalBlocks b)"
  have eta: "\<lparr>PrimaryBlock = PrimaryBlock b, CanonicalBlocks = CanonicalBlocks b\<rparr> = b"
    by (cases b) simp
  have eq: "Bundle_CheckCRC_states b
      = map (\<lambda>p. \<lparr>PrimaryBlock = p, CanonicalBlocks = CanonicalBlocks b\<rparr>) ?ps @ ?rest"
    by (simp add: Bundle_CheckCRC_states_def Let_def PrimaryBlock_states_last)
  show ?thesis
  proof (cases "?rest = []")
    case True
    with ne eq have "?ps \<noteq> []" by auto
    then show ?thesis
      unfolding eq True by (simp add: last_map PrimaryBlock_states_end eta)
  next
    case False
    from canonicals_states_end [OF False] False show ?thesis unfolding eq by (simp add: eta)
  qed
qed


text \<open>
  C5, as amended: \<^verbatim>\<open>CheckCRC\<close> works on the shared blocks in place. While a block is
  checked its CRC value is set to zero and then written back: every value the bundle takes
  during the check differs from the bundle before the call in CRC values only, the last of
  them is the bundle before the call, and after \<^verbatim>\<open>CheckCRC\<close> returns every field of every
  block is as before. The result tells whether every stored CRC value is the computed one.
\<close>

theorem CheckCRC_restores:
  "Bundle_CheckCRC (PrimaryBlock_CheckCRC serializePB checksum)
       (CanonicalBlock_CheckCRC serializeCB checksum) b
     = (crcMatches serializePB serializeCB checksum b, b)
   \<and> (\<forall>s \<in> set (Bundle_CheckCRC_states b). withoutCRC s = withoutCRC b)
   \<and> (Bundle_CheckCRC_states b \<noteq> [] \<longrightarrow> last (Bundle_CheckCRC_states b) = b)"
proof (intro conjI)
  show "Bundle_CheckCRC (PrimaryBlock_CheckCRC serializePB checksum)
       (CanonicalBlock_CheckCRC serializeCB checksum) b
     = (crcMatches serializePB serializeCB checksum b, b)"
    unfolding crcMatches_def
    by (rule Bundle_CheckCRC_eq)
      (rule PrimaryBlock_CheckCRC_restores, rule CanonicalBlock_CheckCRC_restores)
  show "\<forall>s \<in> set (Bundle_CheckCRC_states b). withoutCRC s = withoutCRC b"
    by (blast intro: Bundle_states_fields)
  show "Bundle_CheckCRC_states b \<noteq> [] \<longrightarrow> last (Bundle_CheckCRC_states b) = b"
    by (blast intro: Bundle_states_end)
qed


text \<open>The check of the example bundle: it fails, and leaves the bundle as it was.\<close>

theorem CheckCRC_restores_witness:
  "Bundle_CheckCRC (PrimaryBlock_CheckCRC exampleSerializePB exampleChecksum)
       (CanonicalBlock_CheckCRC exampleSerializeCB exampleChecksum) exampleCRCBundle
     = (False, exampleCRCBundle)
   \<and> withoutCRC (hd (Bundle_CheckCRC_states exampleCRCBundle)) = withoutCRC exampleCRCBundle"
proof -
  have m: "crcMatches exampleSerializePB exampleSerializeCB exampleChecksum exampleCRCBundle = False"
    by (simp add: crcMatches_def PrimaryBlock_CheckCRC_def exampleCRCBundle_def Let_def
        exampleSerializePB_def exampleChecksum_def emptyCRC_def)
  have h: "hd (Bundle_CheckCRC_states exampleCRCBundle) \<in> set (Bundle_CheckCRC_states exampleCRCBundle)"
    by (simp add: Bundle_CheckCRC_states_def PrimaryBlock_CheckCRC_states_def exampleCRCBundle_def
        Let_def)
  from CheckCRC_restores [of exampleSerializePB exampleChecksum exampleSerializeCB exampleCRCBundle]
    m h show ?thesis by simp
qed


text \<open>
  C5 as stated fails: during the check of the example bundle, the CRC value of the primary
  block, 1 2 3 4 before the call, is 0 0 0 0 in the shared bundle.
\<close>

theorem CheckCRC_mutates_counterexample:
  "PrimaryCRC (PrimaryBlock exampleCRCBundle) = [1, 2, 3, 4]
   \<and> Bundle_CheckCRC_states exampleCRCBundle \<noteq> []
   \<and> PrimaryCRC (PrimaryBlock (hd (Bundle_CheckCRC_states exampleCRCBundle))) = [0, 0, 0, 0]
   \<and> hd (Bundle_CheckCRC_states exampleCRCBundle) \<noteq> exampleCRCBundle"
  by (simp add: Bundle_CheckCRC_states_def PrimaryBlock_CheckCRC_states_def exampleCRCBundle_def
      Let_def emptyCRC_def)


section \<open>Decoding a bundle\<close>

text \<open>
  The loop over \<^verbatim>\<open>dataArr[1:]\<close> returns the blocks exactly when every element is decoded, and
  panics with the panic of the first element that is not.
\<close>

lemma decodeCanonicals_Inr:
  "(decodeCanonicals dec ds = Inr cbs) = (map dec ds = map Inr cbs)"
proof (induction ds arbitrary: cbs)
  case Nil
  show ?case by auto
next
  case (Cons d ds)
  show ?case
  proof (cases cbs)
    case Nil
    then show ?thesis by (simp add: decodeBundleBlock_def split: sum.splits)
  next
    case c: (Cons c cs)
    show ?thesis
      unfolding c using Cons [of cs]
      by (auto simp: decodeBundleBlock_def split: sum.splits)
  qed
qed

lemma decodeCanonicals_Inl:
  assumes "map dec (take i ds) = map Inr cbs" and "i < length ds" and "dec (ds ! i) = Inl r"
  shows "decodeCanonicals dec ds = Inl r"
  using assms
proof (induction ds arbitrary: i cbs)
  case Nil
  then show ?case by simp
next
  case (Cons d ds)
  show ?case
  proof (cases i)
    case 0
    with Cons.prems show ?thesis by (simp add: decodeBundleBlock_def)
  next
    case (Suc j)
    with Cons.prems obtain c cs where cbs: "cbs = c # cs" and d: "dec d = Inr c"
      and m: "map dec (take j ds) = map Inr cs"
      by (cases cbs) auto
    from Suc Cons.prems have "j < length ds" and "dec (ds ! j) = Inl r" by simp_all
    with Cons.IH [OF m] have "decodeCanonicals dec ds = Inl r" by simp
    with d show ?thesis by (simp add: decodeBundleBlock_def)
  qed
qed


text \<open>
  C6: whatever the input, \<^verbatim>\<open>NewBundleFromCbor\<close> returns a bundle and an error value, and every
  panic of the decoding comes back as the error \<^verbatim>\<open>Bundle: Decoding CBOR failed\<close>, beside the
  zero bundle:
  \<^item> a panic of the library on the bytes;
  \<^item> the index \<^verbatim>\<open>dataArr[0]\<close> out of range, when the bytes are an empty array;
  \<^item> a panic of the decoding of the primary block;
  \<^item> a panic of the decoding of a canonical block, the blocks before it being decoded.

  The error is nil exactly when the bytes are a non-empty array, every block is decoded,
  \<^verbatim>\<open>checkValid\<close> finds nothing and \<^verbatim>\<open>CheckCRC\<close> holds. The blocks' own \<^verbatim>\<open>checkValid\<close> and
  \<^verbatim>\<open>CheckCRC\<close> are methods that return here; what no \<^verbatim>\<open>recover\<close> catches, such as the
  exhaustion of memory, is not a panic and is not described.
\<close>

theorem NewBundleFromCbor_recovers:
  "(decodeGeneric m data = Inl r \<longrightarrow> NewBundleFromCbor m data = (zeroBundle, [BundleViolation (BundleErrorRecovered ''Bundle: Decoding CBOR failed, %v'' r)]))
   \<and> (decodeGeneric m data = Inr [] \<longrightarrow>
        NewBundleFromCbor m data = (zeroBundle, [BundleViolation (BundleErrorRecovered ''Bundle: Decoding CBOR failed, %v'' IndexOutOfRange)]))
   \<and> (decodeGeneric m data = Inr (d0 # ds) \<and> decodePrimary m d0 = Inl r \<longrightarrow>
        NewBundleFromCbor m data = (zeroBundle, [BundleViolation (BundleErrorRecovered ''Bundle: Decoding CBOR failed, %v'' r)]))
   \<and> (decodeGeneric m data = Inr (d0 # ds) \<and> decodePrimary m d0 = Inr pb
        \<and> map (decodeCanonical m) (take i ds) = map Inr cbs \<and> i < length ds
        \<and> decodeCanonical m (ds ! i) = Inl r \<longrightarrow>
        NewBundleFromCbor m data = (zeroBundle, [BundleViolation (BundleErrorRecovered ''Bundle: Decoding CBOR failed, %v'' r)]))
   \<and> (snd (NewBundleFromCbor m data) = []) =
       (\<exists>d0 ds pb cbs.
          decodeGeneric m data = Inr (d0 # ds) \<and> decodePrimary m d0 = Inr pb
          \<and> map (decodeCanonical m) ds = map Inr cbs
          \<and> Bundle_checkValid (pbCheckValid m) (cbCheckValid m)
               \<lparr>PrimaryBlock = pb, CanonicalBlocks = cbs\<rparr> = []
          \<and> fst (Bundle_CheckCRC (pbCheckCRC m) (cbCheckCRC m)
                   \<lparr>PrimaryBlock = pb, CanonicalBlocks = cbs\<rparr>))"
proof (intro conjI impI)
  assume "decodeGeneric m data = Inl r"
  then show "NewBundleFromCbor m data = (zeroBundle, [BundleViolation (BundleErrorRecovered ''Bundle: Decoding CBOR failed, %v'' r)])"
    by (simp add: NewBundleFromCbor_def NewBundleFromCbor_body_def)
next
  assume "decodeGeneric m data = Inr []"
  then show "NewBundleFromCbor m data = (zeroBundle, [BundleViolation (BundleErrorRecovered ''Bundle: Decoding CBOR failed, %v'' IndexOutOfRange)])"
    by (simp add: NewBundleFromCbor_def NewBundleFromCbor_body_def)
next
  assume "decodeGeneric m data = Inr (d0 # ds) \<and> decodePrimary m d0 = Inl r"
  then show "NewBundleFromCbor m data = (zeroBundle, [BundleViolation (BundleErrorRecovered ''Bundle: Decoding CBOR failed, %v'' r)])"
    by (simp add: NewBundleFromCbor_def NewBundleFromCbor_body_def
        decodeBundleBlock_def)
next
  assume a: "decodeGeneric m data = Inr (d0 # ds) \<and> decodePrimary m d0 = Inr pb
        \<and> map (decodeCanonical m) (take i ds) = map Inr cbs \<and> i < length ds
        \<and> decodeCanonical m (ds ! i) = Inl r"
  then have "decodeCanonicals (decodeCanonical m) ds = Inl r"
    by (blast intro: decodeCanonicals_Inl)
  with a show "NewBundleFromCbor m data = (zeroBundle, [BundleViolation (BundleErrorRecovered ''Bundle: Decoding CBOR failed, %v'' r)])"
    by (simp add: NewBundleFromCbor_def NewBundleFromCbor_body_def
        decodeBundleBlock_def)
next
  show "(snd (NewBundleFromCbor m data) = []) =
       (\<exists>d0 ds pb cbs.
          decodeGeneric m data = Inr (d0 # ds) \<and> decodePrimary m d0 = Inr pb
          \<and> map (decodeCanonical m) ds = map Inr cbs
          \<and> Bundle_checkValid (pbCheckValid m) (cbCheckValid m)
               \<lparr>PrimaryBlock = pb, CanonicalBlocks = cbs\<rparr> = []
          \<and> fst (Bundle_CheckCRC (pbCheckCRC m) (cbCheckCRC m)
                   \<lparr>PrimaryBlock = pb, CanonicalBlocks = cbs\<rparr>))"
  proof (cases "decodeGeneric m data")
    case (Inl r')
    then show ?thesis
      by (simp add: NewBundleFromCbor_def NewBundleFromCbor_body_def)
  next
    case g: (Inr dataArr)
    show ?thesis
    proof (cases dataArr)
      case Nil
      with g show ?thesis
        by (simp add: NewBundleFromCbor_def NewBundleFromCbor_body_def)
    next
      case (Cons e0 es)
      show ?thesis
      proof (cases "decodePrimary m e0")
        case (Inl r')
        with g Cons show ?thesis
          by (simp add: NewBundleFromCbor_def NewBundleFromCbor_body_def decodeBundleBlock_def)
      next
        case p: (Inr pb')
        show ?thesis
        proof (cases "decodeCanonicals (decodeCanonical m) es")
          case (Inl r')
          then have "\<And>cbs. map (decodeCanonical m) es \<noteq> map Inr cbs"
            by (simp add: decodeCanonicals_Inr [symmetric])
          with g Cons p Inl show ?thesis
            by (simp add: NewBundleFromCbor_def NewBundleFromCbor_body_def decodeBundleBlock_def)
        next
          case c: (Inr cbs')
          then have m: "map (decodeCanonical m) es = map Inr cbs'"
            by (simp add: decodeCanonicals_Inr)
          have u: "\<And>cbs. (map (decodeCanonical m) es = map Inr cbs) = (cbs = cbs')"
            unfolding m by (auto dest: map_injective [OF _ inj_Inr])
          show ?thesis
            using g Cons p c
            by (auto simp: NewBundleFromCbor_def NewBundleFromCbor_body_def decodeBundleBlock_def
                Let_def u split: prod.splits)
        qed
      qed
    qed
  qed
qed


text \<open>
  The four byte sequences of \<^verbatim>\<open>exampleCodec\<close>: the cut array, the empty array, a primary block
  that is not decoded, and a canonical block that is not decoded after a primary block that
  is. Each time the panic comes back as the error.
\<close>

theorem NewBundleFromCbor_recovers_witness:
  "decodeGeneric exampleCodec [0x9f] = Inl DecodeFailed
   \<and> NewBundleFromCbor exampleCodec [0x9f] =
        (zeroBundle,
         [BundleViolation (BundleErrorRecovered ''Bundle: Decoding CBOR failed, %v'' DecodeFailed)])
   \<and> decodeGeneric exampleCodec [0x9f, 0xff] = Inr []
   \<and> NewBundleFromCbor exampleCodec [0x9f, 0xff] =
        (zeroBundle,
         [BundleViolation (BundleErrorRecovered ''Bundle: Decoding CBOR failed, %v'' IndexOutOfRange)])
   \<and> decodeGeneric exampleCodec [0x9f, 0x00, 0xff] = Inr [IUint64 0]
   \<and> decodePrimary exampleCodec (IUint64 0) = Inl DecodeFailed
   \<and> NewBundleFromCbor exampleCodec [0x9f, 0x00, 0xff] =
        (zeroBundle,
         [BundleViolation (BundleErrorRecovered ''Bundle: Decoding CBOR failed, %v'' DecodeFailed)])
   \<and> decodeGeneric exampleCodec ([0x9f] @ examplePrimaryBytes @ [0x00, 0xff]) =
        Inr [examplePrimaryWire, IUint64 0]
   \<and> decodePrimary exampleCodec examplePrimaryWire = Inr examplePrimary
   \<and> decodeCanonical exampleCodec (IUint64 0) = Inl DecodeFailed
   \<and> NewBundleFromCbor exampleCodec ([0x9f] @ examplePrimaryBytes @ [0x00, 0xff]) =
        (zeroBundle,
         [BundleViolation (BundleErrorRecovered ''Bundle: Decoding CBOR failed, %v'' DecodeFailed)])
   \<and> snd (NewBundleFromCbor exampleCodec [0x9f, 0xff]) \<noteq> ([] :: string violation list)"
proof -
  have g1: "decodeGeneric exampleCodec [0x9f] = Inl DecodeFailed"
    by (simp add: exampleCodec_def examplePrimaryBytes_def)
  have g2: "decodeGeneric exampleCodec [0x9f, 0xff] = Inr []"
    by (simp add: exampleCodec_def)
  have g3: "decodeGeneric exampleCodec [0x9f, 0x00, 0xff] = Inr [IUint64 0]"
    by (simp add: exampleCodec_def)
  have g4: "decodeGeneric exampleCodec ([0x9f] @ examplePrimaryBytes @ [0x00, 0xff]) =
        Inr [examplePrimaryWire, IUint64 0]"
    by (simp add: exampleCodec_def examplePrimaryBytes_def)
  have p3: "decodePrimary exampleCodec (IUint64 0) = Inl DecodeFailed"
    by (simp add: exampleCodec_def examplePrimaryWire_def)
  have p4: "decodePrimary exampleCodec examplePrimaryWire = Inr examplePrimary"
    by (simp add: exampleCodec_def)
  have c4: "decodeCanonical exampleCodec (IUint64 0) = Inl DecodeFailed"
    by (simp add: exampleCodec_def)
  note t1 = NewBundleFromCbor_recovers [of exampleCodec "[0x9f]" DecodeFailed]
  note t2 = NewBundleFromCbor_recovers [of exampleCodec "[0x9f, 0xff]"]
  note t3 = NewBundleFromCbor_recovers
    [of exampleCodec "[0x9f, 0x00, 0xff]" DecodeFailed "IUint64 0" "[]"]
  note t4 = NewBundleFromCbor_recovers
    [of exampleCodec "[0x9f] @ examplePrimaryBytes @ [0x00, 0xff]" DecodeFailed
        examplePrimaryWire "[IUint64 0]" examplePrimary 0 "[]"]
  from g1 t1 have r1: "NewBundleFromCbor exampleCodec [0x9f] =
        (zeroBundle,
         [BundleViolation (BundleErrorRecovered ''Bundle: Decoding CBOR failed, %v'' DecodeFailed)])"
    by blast
  from g2 t2 have r2: "NewBundleFromCbor exampleCodec [0x9f, 0xff] =
        (zeroBundle,
         [BundleViolation (BundleErrorRecovered ''Bundle: Decoding CBOR failed, %v'' IndexOutOfRange)])"
    by blast
  from g3 p3 t3 have r3: "NewBundleFromCbor exampleCodec [0x9f, 0x00, 0xff] =
        (zeroBundle,
         [BundleViolation (BundleErrorRecovered ''Bundle: Decoding CBOR failed, %v'' DecodeFailed)])"
    by blast
  have h4: "map (decodeCanonical exampleCodec) (take 0 [IUint64 0]) = map Inr []
      \<and> (0 :: nat) < length [IUint64 0] \<and> decodeCanonical exampleCodec ([IUint64 0] ! 0) = Inl DecodeFailed"
    using c4 by simp
  from g4 p4 h4 t4 have r4:
    "NewBundleFromCbor exampleCodec ([0x9f] @ examplePrimaryBytes @ [0x00, 0xff]) =
        (zeroBundle,
         [BundleViolation (BundleErrorRecovered ''Bundle: Decoding CBOR failed, %v'' DecodeFailed)])"
    by blast
  from r2 have n2: "snd (NewBundleFromCbor exampleCodec [0x9f, 0xff]) \<noteq> ([] :: string violation list)"
    by simp
  from g1 r1 g2 r2 g3 p3 r3 g4 p4 c4 r4 n2 show ?thesis by blast
qed


end
